theory Spec2Isabelle
  imports Complex_Main
begin

section \<open>Python values and exceptions\<close>

text \<open>
  The exceptions the modelled code raises or catches. A function of the source that can
  raise returns \<open>error + 'a\<close>, with \<open>Inl\<close> for the exception.
  \<open>ValueError\<close> carries the four values that the message of
  \<open>validate_analysis_specific_options\<close> interpolates: the offending key, the
  object class, the analysis and the tuple of valid option keys.
  \<open>KeyError\<close> carries the missing key, \<open>AssertionError\<close> its message,
  and \<open>RuntimeError\<close>, which a solver raises, its message.
\<close>

datatype error =
    IndexError
  | KeyError string
  | ValueError string string string "string list"
  | TypeError
  | AttributeError
  | NotImplementedError
  | ZeroDivisionError
  | AssertionError string
  | ImplicitAnalysisInitError
  | RuntimeError string

text \<open>
  Sequencing of statements that may raise: the second runs on the value of the first
  unless the first raised.
\<close>

definition and_then :: "error + 'a \<Rightarrow> ('a \<Rightarrow> error + 'b) \<Rightarrow> error + 'b" where
  "and_then r f = (case r of Inl e \<Rightarrow> Inl e | Inr x \<Rightarrow> f x)"

text \<open>
  Python floats are idealised as rationals: rounding is not modelled, the exception of a
  division by zero is.
\<close>

type_synonym pyfloat = rat

definition py_div :: "pyfloat \<Rightarrow> pyfloat \<Rightarrow> error + pyfloat" where
  "py_div a b = (if b = 0 then Inl ZeroDivisionError else Inr (a / b))"

text \<open>Arithmetic on a variable that still holds \<open>None\<close> raises \<open>TypeError\<close>.\<close>

definition num :: "pyfloat option \<Rightarrow> error + pyfloat" where
  "num v = (case v of None \<Rightarrow> Inl TypeError | Some x \<Rightarrow> Inr x)"

text \<open>\<open>np.pi\<close>: the double nearest to \<open>\<pi>\<close>, as an exact fraction.\<close>

definition np_pi :: pyfloat where
  "np_pi = 884279719003555 / 281474976710656"


section \<open>library/propulsion\_electric.py: \<open>motor_electric_performance\<close>\<close>

text \<open>
  The local variables of \<open>motor_electric_performance\<close>: the four quantities
  (\<open>None\<close> until supplied or computed) and the four flags the loop tests.
\<close>

record motor_vars =
  voltage :: "pyfloat option"
  current :: "pyfloat option"
  rpm :: "pyfloat option"
  torque :: "pyfloat option"
  voltage_known :: bool
  current_known :: bool
  rpm_known :: bool
  torque_known :: bool

definition all_known :: "motor_vars \<Rightarrow> bool" where
  "all_known s \<longleftrightarrow> voltage_known s \<and> current_known s \<and> rpm_known s \<and> torque_known s"

text \<open>The four top-level \<open>if\<close> statements of the loop body, in the order of the source.\<close>

definition if_rpm_known :: "pyfloat \<Rightarrow> pyfloat \<Rightarrow> motor_vars \<Rightarrow> error + motor_vars" where
  "if_rpm_known kv_rads resistance s =
     (if rpm_known s \<and> current_known s \<and> \<not> voltage_known s then
        and_then (num (rpm s)) (\<lambda>r.
        and_then (py_div (r * np_pi / 30) kv_rads) (\<lambda>back_EMF_voltage.
        and_then (num (current s)) (\<lambda>c.
        Inr (s\<lparr>voltage := Some (back_EMF_voltage + c * resistance), voltage_known := True\<rparr>))))
      else Inr s)"

definition if_torque_known :: "pyfloat \<Rightarrow> pyfloat \<Rightarrow> motor_vars \<Rightarrow> error + motor_vars" where
  "if_torque_known kv_rads no_load_current s =
     (if torque_known s \<and> \<not> current_known s then
        and_then (num (torque s)) (\<lambda>t.
        Inr (s\<lparr>current := Some (t * kv_rads + no_load_current), current_known := True\<rparr>))
      else Inr s)"

definition if_voltage_known :: "pyfloat \<Rightarrow> pyfloat \<Rightarrow> motor_vars \<Rightarrow> error + motor_vars" where
  "if_voltage_known kv_rads resistance s =
     (if voltage_known s then
        and_then
          (if rpm_known s \<and> \<not> current_known s then
             and_then (num (rpm s)) (\<lambda>r.
             and_then (py_div (r * np_pi / 30) kv_rads) (\<lambda>back_EMF_voltage.
             and_then (num (voltage s)) (\<lambda>v.
             and_then (py_div (v - back_EMF_voltage) resistance) (\<lambda>c.
             Inr (s\<lparr>current := Some c, current_known := True\<rparr>)))))
           else Inr s)
          (\<lambda>s1.
             if \<not> rpm_known s1 \<and> current_known s1 then
               and_then (num (voltage s1)) (\<lambda>v.
               and_then (num (current s1)) (\<lambda>c.
               and_then (py_div ((v - c * resistance) * kv_rads * 30) np_pi) (\<lambda>r.
               Inr (s1\<lparr>rpm := Some r, rpm_known := True\<rparr>))))
             else Inr s1)
      else Inr s)"

definition if_current_known :: "pyfloat \<Rightarrow> pyfloat \<Rightarrow> motor_vars \<Rightarrow> error + motor_vars" where
  "if_current_known kv_rads no_load_current s =
     (if current_known s \<and> \<not> torque_known s then
        and_then (num (current s)) (\<lambda>c.
        and_then (py_div (c - no_load_current) kv_rads) (\<lambda>t.
        Inr (s\<lparr>torque := Some t, torque_known := True\<rparr>)))
      else Inr s)"

definition loop_body ::
  "pyfloat \<Rightarrow> pyfloat \<Rightarrow> pyfloat \<Rightarrow> motor_vars \<Rightarrow> error + motor_vars" where
  "loop_body kv_rads resistance no_load_current s =
     and_then (if_rpm_known kv_rads resistance s) (\<lambda>s1.
     and_then (if_torque_known kv_rads no_load_current s1) (\<lambda>s2.
     and_then (if_voltage_known kv_rads resistance s2) (\<lambda>s3.
     if_current_known kv_rads no_load_current s3)))"

text \<open>
  The \<open>while\<close> loop. Nothing in the source bounds it, so the model counts iterations:
  \<open>while_loop n\<close> runs the body at most \<open>n\<close> times and is \<open>None\<close> when the
  condition still holds after that. An exception leaves the loop.
\<close>

fun while_loop ::
  "nat \<Rightarrow> pyfloat \<Rightarrow> pyfloat \<Rightarrow> pyfloat \<Rightarrow> motor_vars \<Rightarrow> (error + motor_vars) option" where
  "while_loop 0 kv_rads resistance no_load_current s =
     (if all_known s then Some (Inr s) else None)"
| "while_loop (Suc m) kv_rads resistance no_load_current s =
     (if all_known s then Some (Inr s)
      else (case loop_body kv_rads resistance no_load_current s of
              Inl e \<Rightarrow> Some (Inl e)
            | Inr s' \<Rightarrow> while_loop m kv_rads resistance no_load_current s'))"

text \<open>The number of supplied arguments, as the sum of the four booleans.\<close>

definition count_known :: "bool \<Rightarrow> bool \<Rightarrow> bool \<Rightarrow> bool \<Rightarrow> nat" where
  "count_known a b c d = of_bool a + of_bool b + of_bool c + of_bool d"

definition efficiency_of ::
  "motor_vars \<Rightarrow> error + (pyfloat \<times> pyfloat \<times> pyfloat \<times> pyfloat \<times> pyfloat)" where
  "efficiency_of s =
     and_then (num (rpm s)) (\<lambda>r.
     and_then (num (torque s)) (\<lambda>t.
     and_then (num (voltage s)) (\<lambda>v.
     and_then (num (current s)) (\<lambda>c.
     and_then (py_div ((r * np_pi / 30) * t) (v * c)) (\<lambda>efficiency.
     Inr (v, c, r, t, efficiency))))))"

text \<open>The local variables on entry: a quantity is known when it was supplied.\<close>

definition initial_vars ::
  "pyfloat option \<Rightarrow> pyfloat option \<Rightarrow> pyfloat option \<Rightarrow> pyfloat option \<Rightarrow> motor_vars" where
  "initial_vars v c r t =
     \<lparr>voltage = v, current = c, rpm = r, torque = t,
      voltage_known = (v \<noteq> None), current_known = (c \<noteq> None),
      rpm_known = (r \<noteq> None), torque_known = (t \<noteq> None)\<rparr>"

text \<open>
  \<open>motor_electric_performance\<close>, with the iteration bound of the loop as first
  argument. The two assertions come before the loop and do not depend on the bound.
\<close>

definition motor_electric_performance ::
  "nat \<Rightarrow> pyfloat option \<Rightarrow> pyfloat option \<Rightarrow> pyfloat option \<Rightarrow> pyfloat option \<Rightarrow>
   pyfloat \<Rightarrow> pyfloat \<Rightarrow> pyfloat \<Rightarrow>
   (error + (pyfloat \<times> pyfloat \<times> pyfloat \<times> pyfloat \<times> pyfloat)) option" where
  "motor_electric_performance n v c r t kv resistance no_load_current =
     (let s = initial_vars v c r t
      in if count_known (voltage_known s) (current_known s) (rpm_known s) (torque_known s) \<noteq> 2
         then Some (Inl (AssertionError ''You must give exactly two input arguments.''))
         else if current_known s \<and> torque_known s
         then Some (Inl (AssertionError
           ''You cannot supply the combination of current and torque - this makes for an ill-posed problem.''))
         else (case while_loop n (kv * np_pi / 30) resistance no_load_current s of
                 None \<Rightarrow> None
               | Some (Inl e) \<Rightarrow> Some (Inl e)
               | Some (Inr s') \<Rightarrow> Some (efficiency_of s')))"

text \<open>The default values of \<open>kv\<close>, \<open>resistance\<close> and \<open>no_load_current\<close>.\<close>

definition default_kv :: pyfloat where "default_kv = 1000"
definition default_resistance :: pyfloat where "default_resistance = 1 / 10"
definition default_no_load_current :: pyfloat where "default_no_load_current = 4 / 10"

text \<open>
  What the last two statements do with the four solved quantities: the efficiency divides
  by \<open>voltage * current\<close>.
\<close>

definition outcome ::
  "pyfloat \<Rightarrow> pyfloat \<Rightarrow> pyfloat \<Rightarrow> pyfloat \<Rightarrow>
   error + (pyfloat \<times> pyfloat \<times> pyfloat \<times> pyfloat \<times> pyfloat)" where
  "outcome v c r t =
     (if v * c = 0 then Inl ZeroDivisionError
      else Inr (v, c, r, t, (r * np_pi / 30) * t / (v * c)))"

text \<open>
  The calls the assertions let through: exactly two of the four quantities, and not the
  pair of current and torque.
\<close>

definition accepted ::
  "pyfloat option \<Rightarrow> pyfloat option \<Rightarrow> pyfloat option \<Rightarrow> pyfloat option \<Rightarrow> bool" where
  "accepted v c r t \<longleftrightarrow>
     count_known (v \<noteq> None) (c \<noteq> None) (r \<noteq> None) (t \<noteq> None) = 2
     \<and> \<not> (c \<noteq> None \<and> t \<noteq> None)"

text \<open>All four quantities hold a number.\<close>

definition all_numbers :: "motor_vars \<Rightarrow> bool" where
  "all_numbers s \<longleftrightarrow>
     voltage s \<noteq> None \<and> current s \<noteq> None \<and> rpm s \<noteq> None \<and> torque s \<noteq> None"


section \<open>common.py: analysis-specific options\<close>

text \<open>
  A Python \<open>dict\<close> is a list of key-value pairs in insertion order, with distinct
  keys. \<open>getitem\<close> is \<open>d[k]\<close>, which raises \<open>KeyError\<close> on a missing key;
  \<open>setitem\<close> is \<open>d[k] = v\<close>, which replaces the value of a present key where it
  stands and appends a new key at the end.
\<close>

type_synonym ('k, 'v) dict = "('k \<times> 'v) list"

definition keys :: "('k, 'v) dict \<Rightarrow> 'k list" where
  "keys d = map fst d"

definition getitem :: "(string, 'v) dict \<Rightarrow> string \<Rightarrow> error + 'v" where
  "getitem d k = (case map_of d k of None \<Rightarrow> Inl (KeyError k) | Some v \<Rightarrow> Inr v)"

fun setitem :: "('k, 'v) dict \<Rightarrow> 'k \<Rightarrow> 'v \<Rightarrow> ('k, 'v) dict" where
  "setitem [] k v = [(k, v)]"
| "setitem ((k', v') # d) k v = (if k' = k then (k, v) # d else (k', v') # setitem d k v)"

text \<open>
  The analysis classes are not part of the modelled files. What
  \<open>validate_analysis_specific_options\<close> reads of one is kept here: its name (for the
  error message), \<open>option_keys\<close>, from an object class (by name) to the option keys
  that class accepts, and \<open>default_analysis_specific_options\<close>, from a key to its
  default. Option values are of any type \<open>'v\<close>.
\<close>

record 'v analysis =
  analysis_name :: string
  option_keys :: "(string, string list) dict"
  default_analysis_specific_options :: "(string, 'v) dict"

text \<open>
  The dict comprehension \<open>{key: defaults[key] for key in option_keys[self]}\<close>, after
  \<open>option_keys[self]\<close> has been looked up.
\<close>

fun default_options ::
  "(string, 'v) dict \<Rightarrow> string list \<Rightarrow> (string, 'v) dict \<Rightarrow> error + (string, 'v) dict" where
  "default_options defaults [] acc = Inr acc"
| "default_options defaults (key # rest) acc =
     (case getitem defaults key of
        Inl e \<Rightarrow> Inl e
      | Inr v \<Rightarrow> default_options defaults rest (setitem acc key v))"

text \<open>
  The loop over the user's items: a key of the defaults takes the user's value, any other
  key raises \<open>ValueError\<close> with the keys of the defaults in its message.
\<close>

fun user_options ::
  "string \<Rightarrow> string \<Rightarrow> (string, 'v) dict \<Rightarrow> (string, 'v) dict \<Rightarrow> error + (string, 'v) dict" where
  "user_options self a analysis_specific_options [] = Inr analysis_specific_options"
| "user_options self a analysis_specific_options ((key, v) # rest) =
     (if key \<in> set (keys analysis_specific_options)
      then user_options self a (setitem analysis_specific_options key v) rest
      else Inl (ValueError key self a (keys analysis_specific_options)))"

text \<open>
  \<open>validate_analysis_specific_options\<close>, a class method: \<open>self\<close> is the class of
  the object. The test \<open>if analysis_specific_options_user:\<close> skips the loop on an
  empty dict, on which the loop does nothing.
\<close>

definition validate_analysis_specific_options ::
  "string \<Rightarrow> 'v analysis \<Rightarrow> (string, 'v) dict \<Rightarrow> error + (string, 'v) dict" where
  "validate_analysis_specific_options self a analysis_specific_options_user =
     (case getitem (option_keys a) self of
        Inl e \<Rightarrow> Inl e
      | Inr ks \<Rightarrow>
          (case default_options (default_analysis_specific_options a) ks [] of
             Inl e \<Rightarrow> Inl e
           | Inr analysis_specific_options \<Rightarrow>
               if analysis_specific_options_user \<noteq> []
               then user_options self (analysis_name a) analysis_specific_options
                      analysis_specific_options_user
               else Inr analysis_specific_options))"

text \<open>
  \<open>parse_analysis_specific_options\<close>: every value of the dict is replaced by its
  validated form, in the order of the items; the first exception ends the loop.
\<close>

fun parse_analysis_specific_options ::
  "string \<Rightarrow> ('v analysis, (string, 'v) dict) dict \<Rightarrow>
   error + ('v analysis, (string, 'v) dict) dict" where
  "parse_analysis_specific_options self [] = Inr []"
| "parse_analysis_specific_options self ((a, analysis_specific_options_user) # rest) =
     (case validate_analysis_specific_options self a analysis_specific_options_user of
        Inl e \<Rightarrow> Inl e
      | Inr opts \<Rightarrow>
          (case parse_analysis_specific_options self rest of
             Inl e \<Rightarrow> Inl e
           | Inr rest' \<Rightarrow> Inr ((a, opts) # rest')))"

text \<open>
  \<open>get_analysis_specific_options\<close>, on the class of the object and the dict stored in
  its attribute \<open>analysis_specific_options\<close>.
\<close>

definition get_analysis_specific_options ::
  "string \<Rightarrow> ('v analysis, (string, 'v) dict) dict \<Rightarrow> 'v analysis \<Rightarrow>
   error + (string, 'v) dict" where
  "get_analysis_specific_options self analysis_specific_options_dict a =
     (case map_of analysis_specific_options_dict a of
        None \<Rightarrow> validate_analysis_specific_options self a []
      | Some analysis_specific_options \<Rightarrow> Inr analysis_specific_options)"

text \<open>
  The option keys valid for a class under an analysis, none when the analysis has no
  entry for the class; an analysis is complete for a class when it has an entry for it
  and a default for each of the entry's keys.
\<close>

definition valid_options :: "string \<Rightarrow> 'v analysis \<Rightarrow> string list" where
  "valid_options self a = (case map_of (option_keys a) self of None \<Rightarrow> [] | Some ks \<Rightarrow> ks)"

definition complete_for :: "string \<Rightarrow> 'v analysis \<Rightarrow> bool" where
  "complete_for self a \<longleftrightarrow>
     map_of (option_keys a) self \<noteq> None \<and>
     (\<forall>k \<in> set (valid_options self a). map_of (default_analysis_specific_options a) k \<noteq> None)"

definition all_valid :: "string \<Rightarrow> 'v analysis \<Rightarrow> (string, 'v) dict \<Rightarrow> bool" where
  "all_valid self a user \<longleftrightarrow> (\<forall>k \<in> set (keys user). k \<in> set (valid_options self a))"


section \<open>geometry/airplane.py: \<open>Airplane.__init__\<close>\<close>

text \<open>
  The class \<open>Wing\<close> is not part of the modelled files: a wing is a value of any type
  \<open>'w\<close>, and its three methods that the constructor calls are parameters, each of
  which may raise.
\<close>

record 'w wing_methods =
  area :: "'w \<Rightarrow> error + pyfloat"
  mean_aerodynamic_chord :: "'w \<Rightarrow> error + pyfloat"
  span :: "'w \<Rightarrow> error + pyfloat"

record ('w, 'f, 'v) airplane =
  name :: string
  xyz_ref :: "pyfloat list"
  wings :: "'w list"
  fuselages :: "'f list"
  s_ref :: "pyfloat option"
  c_ref :: "pyfloat option"
  b_ref :: "pyfloat option"
  analysis_specific_options :: "('v analysis, (string, 'v) dict) dict"

text \<open>\<open>if x is None: x = f()\<close>.\<close>

definition if_None :: "pyfloat option \<Rightarrow> error + pyfloat \<Rightarrow> error + pyfloat option" where
  "if_None x f = (case x of
       None \<Rightarrow> (case f of Inl e \<Rightarrow> Inl e | Inr y \<Rightarrow> Inr (Some y))
     | Some y \<Rightarrow> Inr (Some y))"

text \<open>
  \<open>except IndexError: pass\<close>, reached with the values that \<open>s_ref\<close>, \<open>c_ref\<close>
  and \<open>b_ref\<close> have at the time of the exception. Any other exception propagates.
\<close>

definition except_IndexError ::
  "error \<Rightarrow> pyfloat option \<times> pyfloat option \<times> pyfloat option \<Rightarrow>
   error + (pyfloat option \<times> pyfloat option \<times> pyfloat option)" where
  "except_IndexError e refs = (if e = IndexError then Inr refs else Inl e)"

text \<open>The \<open>try\<close> statement that assigns the reference values.\<close>

definition reference_values ::
  "'w wing_methods \<Rightarrow> 'w list \<Rightarrow> pyfloat option \<Rightarrow> pyfloat option \<Rightarrow> pyfloat option \<Rightarrow>
   error + (pyfloat option \<times> pyfloat option \<times> pyfloat option)" where
  "reference_values m ws s c b =
     (case ws of
        [] \<Rightarrow> except_IndexError IndexError (s, c, b)
      | main_wing # _ \<Rightarrow>
          (case if_None s (area m main_wing) of
             Inl e \<Rightarrow> except_IndexError e (s, c, b)
           | Inr s1 \<Rightarrow>
               (case if_None c (mean_aerodynamic_chord m main_wing) of
                  Inl e \<Rightarrow> except_IndexError e (s1, c, b)
                | Inr c1 \<Rightarrow>
                    (case if_None b (span m main_wing) of
                       Inl e \<Rightarrow> except_IndexError e (s1, c1, b)
                     | Inr b1 \<Rightarrow> Inr (s1, c1, b1)))))"

text \<open>The name under which \<open>option_keys\<close> lists the class \<open>Airplane\<close>.\<close>

definition Airplane :: string where
  "Airplane = ''Airplane''"

text \<open>
  \<open>Airplane.__init__\<close>. The arguments \<open>wings\<close> and \<open>fuselages\<close> are \<open>None\<close>
  when omitted, as are the three reference values; \<open>analysis_specific_options\<close> is
  the empty dict when omitted.
\<close>

definition Airplane_init ::
  "'w wing_methods \<Rightarrow> string \<Rightarrow> pyfloat list \<Rightarrow> 'w list option \<Rightarrow> 'f list option \<Rightarrow>
   pyfloat option \<Rightarrow> pyfloat option \<Rightarrow> pyfloat option \<Rightarrow>
   ('v analysis, (string, 'v) dict) dict \<Rightarrow> error + ('w, 'f, 'v) airplane" where
  "Airplane_init m nm xyz ws fs s c b opts =
     (let self_wings = (case ws of Some l \<Rightarrow> l | None \<Rightarrow> []);
          self_fuselages = (case fs of Some l \<Rightarrow> l | None \<Rightarrow> [])
      in case reference_values m self_wings s c b of
           Inl e \<Rightarrow> Inl e
         | Inr (s', c', b') \<Rightarrow>
             (case parse_analysis_specific_options Airplane opts of
                Inl e \<Rightarrow> Inl e
              | Inr opts' \<Rightarrow>
                  Inr \<lparr>name = nm, xyz_ref = xyz, wings = self_wings,
                       fuselages = self_fuselages, s_ref = s', c_ref = c', b_ref = b',
                       analysis_specific_options = opts'\<rparr>))"

text \<open>
  An analysis to run the constructor on: one option for airplanes, with default 0.
\<close>

definition sample_analysis :: "pyfloat analysis" where
  "sample_analysis =
     \<lparr>analysis_name = ''AVL'',
      option_keys = [(''Airplane'', [''profile_drag_coefficient''])],
      default_analysis_specific_options = [(''profile_drag_coefficient'', 0)]\<rparr>"

text \<open>Wing methods to run the constructor on: a wing is its own area, chord and span.\<close>

definition sample_wing_methods :: "(pyfloat \<times> pyfloat \<times> pyfloat) wing_methods" where
  "sample_wing_methods =
     \<lparr>area = (\<lambda>(a, c, b). Inr a),
      mean_aerodynamic_chord = (\<lambda>(a, c, b). Inr c),
      span = (\<lambda>(a, c, b). Inr b)\<rparr>"


section \<open>common.py: \<open>AeroSandboxObject.substitute_solution\<close>\<close>

text \<open>
  The values an attribute can hold. \<open>Symbolic\<close> is a symbolic expression of the
  optimization environment, over expressions of any type \<open>'e\<close>; \<open>Opti\<close> is a
  reference to an optimization environment; \<open>Object\<close> is an \<open>AeroSandboxObject\<close>
  with its identity and its \<open>__dict__\<close>, the attribute names and values in insertion
  order. \<open>PyDict\<close> is a dict, with its keys and values in insertion order;
  \<open>Container\<close> is any other object that holds values, by the name of its type and
  the values it holds: a set, an array, an object that is not an
  \<open>AeroSandboxObject\<close>. A dict and a container can hold symbolic values like a
  list can. \<open>Opaque\<close> is a value that holds no other value: a string, \<open>None\<close>.
\<close>

datatype 'e item =
    PyBool bool
  | PyInt int
  | PyFloat pyfloat
  | Symbolic 'e
  | Opti nat
  | Opaque string
  | PyList "'e item list"
  | PyTuple "'e item list"
  | PyDict "(string \<times> 'e item) list"
  | Container string "'e item list"
  | Object nat "(string \<times> 'e item) list"

text \<open>\<open>isinstance(v, bool) or isinstance(v, int) or isinstance(v, float)\<close>.\<close>

fun is_number :: "'e item \<Rightarrow> bool" where
  "is_number (PyBool b) = True"
| "is_number (PyInt i) = True"
| "is_number (PyFloat f) = True"
| "is_number other = False"

text \<open>
  \<open>try: return sol.value(item) except NotImplementedError: pass\<close>, followed by the
  rest of \<open>convert\<close>: the value of \<open>sol.value\<close> is returned, its
  \<open>NotImplementedError\<close> is caught and any other exception propagates.
\<close>

definition try_value :: "error + 'a \<Rightarrow> error + 'a \<Rightarrow> error + 'a" where
  "try_value r otherwise =
     (case r of
        Inr y \<Rightarrow> Inr y
      | Inl e \<Rightarrow> if e = NotImplementedError then otherwise else Inl e)"

text \<open>
  \<open>convert\<close>, the inner function of \<open>substitute_solution\<close>, with the list
  comprehension \<open>[convert(i) for i in item]\<close> and the loop over the attributes of an
  object. The first argument is \<open>sol.value\<close>, which is not part of the modelled
  files; \<open>convert\<close> calls it on every item first, on a list, a tuple, a dict or an
  object as a whole. Only an \<open>Object\<close> has a method \<open>substitute_solution\<close>;
  on any other item the attribute lookup raises the \<open>AttributeError\<close> that
  \<open>convert\<close> catches. A tuple is converted to a list. A dict and any other
  container are neither a list nor a tuple: \<open>convert\<close> returns them as they are,
  with what they hold. In the loop, a number is skipped, and a \<open>TypeError\<close> or
  \<open>AttributeError\<close> of \<open>convert\<close> leaves the attribute as it is.
\<close>

fun convert :: "('e item \<Rightarrow> error + 'e item) \<Rightarrow> 'e item \<Rightarrow> error + 'e item"
  and convert_items :: "('e item \<Rightarrow> error + 'e item) \<Rightarrow> 'e item list \<Rightarrow> error + 'e item list"
  and substitute_attributes ::
    "('e item \<Rightarrow> error + 'e item) \<Rightarrow> (string \<times> 'e item) list \<Rightarrow> error + (string \<times> 'e item) list"
where
  "convert v (Object oid attrs) =
     try_value (v (Object oid attrs))
       (case substitute_attributes v attrs of
          Inr attrs' \<Rightarrow> Inr (Object oid attrs')
        | Inl e \<Rightarrow> if e = AttributeError then Inr (Object oid attrs) else Inl e)"
| "convert v (PyList xs) =
     try_value (v (PyList xs))
       (case convert_items v xs of Inl e \<Rightarrow> Inl e | Inr ys \<Rightarrow> Inr (PyList ys))"
| "convert v (PyTuple xs) =
     try_value (v (PyTuple xs))
       (case convert_items v xs of Inl e \<Rightarrow> Inl e | Inr ys \<Rightarrow> Inr (PyList ys))"
| "convert v (PyDict d) = try_value (v (PyDict d)) (Inr (PyDict d))"
| "convert v (Container k xs) = try_value (v (Container k xs)) (Inr (Container k xs))"
| "convert v (PyBool b) = try_value (v (PyBool b)) (Inr (PyBool b))"
| "convert v (PyInt i) = try_value (v (PyInt i)) (Inr (PyInt i))"
| "convert v (PyFloat f) = try_value (v (PyFloat f)) (Inr (PyFloat f))"
| "convert v (Symbolic e) = try_value (v (Symbolic e)) (Inr (Symbolic e))"
| "convert v (Opti r) = try_value (v (Opti r)) (Inr (Opti r))"
| "convert v (Opaque s) = try_value (v (Opaque s)) (Inr (Opaque s))"
| "convert_items v [] = Inr []"
| "convert_items v (i # rest) =
     (case convert v i of
        Inl e \<Rightarrow> Inl e
      | Inr y \<Rightarrow> (case convert_items v rest of Inl e \<Rightarrow> Inl e | Inr ys \<Rightarrow> Inr (y # ys)))"
| "substitute_attributes v [] = Inr []"
| "substitute_attributes v ((attrib_name, attrib_value) # rest) =
     (let kept = (case substitute_attributes v rest of
                    Inl e \<Rightarrow> Inl e
                  | Inr rest' \<Rightarrow> Inr ((attrib_name, attrib_value) # rest'))
      in if is_number attrib_value then kept
         else (case convert v attrib_value of
                 Inr y \<Rightarrow>
                   (case substitute_attributes v rest of
                      Inl e \<Rightarrow> Inl e
                    | Inr rest' \<Rightarrow> Inr ((attrib_name, y) # rest'))
               | Inl e \<Rightarrow> if e = TypeError \<or> e = AttributeError then kept else Inl e))"

text \<open>
  \<open>substitute_solution\<close> on an object, given by its identity and its attributes: the
  attributes are replaced in place and the object itself is returned.
\<close>

definition substitute_solution ::
  "('e item \<Rightarrow> error + 'e item) \<Rightarrow> nat \<times> (string \<times> 'e item) list \<Rightarrow>
   error + (nat \<times> (string \<times> 'e item) list)" where
  "substitute_solution v self =
     (case substitute_attributes v (snd self) of
        Inl e \<Rightarrow> Inl e
      | Inr attrs' \<Rightarrow> Inr (fst self, attrs'))"

text \<open>
  No symbolic value is left in an item, at any depth: not in a list, a tuple or a
  sub-object, and not in a dict or another container either.
\<close>

fun symbolic_free :: "'e item \<Rightarrow> bool"
  and symbolic_free_items :: "'e item list \<Rightarrow> bool"
  and symbolic_free_attributes :: "(string \<times> 'e item) list \<Rightarrow> bool"
where
  "symbolic_free (Symbolic e) = False"
| "symbolic_free (PyList xs) = symbolic_free_items xs"
| "symbolic_free (PyTuple xs) = symbolic_free_items xs"
| "symbolic_free (PyDict d) = symbolic_free_attributes d"
| "symbolic_free (Container k xs) = symbolic_free_items xs"
| "symbolic_free (Object oid attrs) = symbolic_free_attributes attrs"
| "symbolic_free (PyBool b) = True"
| "symbolic_free (PyInt i) = True"
| "symbolic_free (PyFloat f) = True"
| "symbolic_free (Opti r) = True"
| "symbolic_free (Opaque s) = True"
| "symbolic_free_items [] = True"
| "symbolic_free_items (i # rest) = (symbolic_free i \<and> symbolic_free_items rest)"
| "symbolic_free_attributes [] = True"
| "symbolic_free_attributes ((n, a) # rest) = (symbolic_free a \<and> symbolic_free_attributes rest)"

text \<open>
  No symbolic value is left where the claims say that the substitution replaces it: held
  by the item itself, or nested inside lists, tuples and sub-objects, at any depth. What a
  dict or another container holds is not looked at.
\<close>

fun replaced :: "'e item \<Rightarrow> bool"
  and replaced_items :: "'e item list \<Rightarrow> bool"
  and replaced_attributes :: "(string \<times> 'e item) list \<Rightarrow> bool"
where
  "replaced (Symbolic e) = False"
| "replaced (PyList xs) = replaced_items xs"
| "replaced (PyTuple xs) = replaced_items xs"
| "replaced (Object oid attrs) = replaced_attributes attrs"
| "replaced (PyDict d) = True"
| "replaced (Container k xs) = True"
| "replaced (PyBool b) = True"
| "replaced (PyInt i) = True"
| "replaced (PyFloat f) = True"
| "replaced (Opti r) = True"
| "replaced (Opaque s) = True"
| "replaced_items [] = True"
| "replaced_items (i # rest) = (replaced i \<and> replaced_items rest)"
| "replaced_attributes [] = True"
| "replaced_attributes ((n, a) # rest) = (replaced a \<and> replaced_attributes rest)"

text \<open>
  The symbolic values of an item are all held by the item itself or nested inside lists,
  tuples and sub-objects: no dict and no other container in it holds one.
\<close>

fun nested_in_lists :: "'e item \<Rightarrow> bool"
  and nested_in_lists_items :: "'e item list \<Rightarrow> bool"
  and nested_in_lists_attributes :: "(string \<times> 'e item) list \<Rightarrow> bool"
where
  "nested_in_lists (PyDict d) = symbolic_free_attributes d"
| "nested_in_lists (Container k xs) = symbolic_free_items xs"
| "nested_in_lists (PyList xs) = nested_in_lists_items xs"
| "nested_in_lists (PyTuple xs) = nested_in_lists_items xs"
| "nested_in_lists (Object oid attrs) = nested_in_lists_attributes attrs"
| "nested_in_lists (Symbolic e) = True"
| "nested_in_lists (PyBool b) = True"
| "nested_in_lists (PyInt i) = True"
| "nested_in_lists (PyFloat f) = True"
| "nested_in_lists (Opti r) = True"
| "nested_in_lists (Opaque s) = True"
| "nested_in_lists_items [] = True"
| "nested_in_lists_items (i # rest) = (nested_in_lists i \<and> nested_in_lists_items rest)"
| "nested_in_lists_attributes [] = True"
| "nested_in_lists_attributes ((n, a) # rest) =
     (nested_in_lists a \<and> nested_in_lists_attributes rest)"

text \<open>
  The substitution as the specification words it, a recursive replacement by solved
  values: an item that the solution gives a value is replaced by that value; a list, a
  tuple or a sub-object that it gives none has its items replaced; any other item that it
  gives none is kept; and an attribute that is a number is not touched. A tuple becomes a
  list, as in the code.
\<close>

fun solved :: "('e item \<Rightarrow> error + 'e item) \<Rightarrow> 'e item \<Rightarrow> 'e item"
  and solved_items :: "('e item \<Rightarrow> error + 'e item) \<Rightarrow> 'e item list \<Rightarrow> 'e item list"
  and solved_attributes ::
    "('e item \<Rightarrow> error + 'e item) \<Rightarrow> (string \<times> 'e item) list \<Rightarrow> (string \<times> 'e item) list"
where
  "solved v (Object oid attrs) =
     (case v (Object oid attrs) of Inr y \<Rightarrow> y | Inl e \<Rightarrow> Object oid (solved_attributes v attrs))"
| "solved v (PyList xs) =
     (case v (PyList xs) of Inr y \<Rightarrow> y | Inl e \<Rightarrow> PyList (solved_items v xs))"
| "solved v (PyTuple xs) =
     (case v (PyTuple xs) of Inr y \<Rightarrow> y | Inl e \<Rightarrow> PyList (solved_items v xs))"
| "solved v (PyDict d) = (case v (PyDict d) of Inr y \<Rightarrow> y | Inl e \<Rightarrow> PyDict d)"
| "solved v (Container k xs) =
     (case v (Container k xs) of Inr y \<Rightarrow> y | Inl e \<Rightarrow> Container k xs)"
| "solved v (PyBool b) = (case v (PyBool b) of Inr y \<Rightarrow> y | Inl e \<Rightarrow> PyBool b)"
| "solved v (PyInt i) = (case v (PyInt i) of Inr y \<Rightarrow> y | Inl e \<Rightarrow> PyInt i)"
| "solved v (PyFloat f) = (case v (PyFloat f) of Inr y \<Rightarrow> y | Inl e \<Rightarrow> PyFloat f)"
| "solved v (Symbolic e) = (case v (Symbolic e) of Inr y \<Rightarrow> y | Inl e' \<Rightarrow> Symbolic e)"
| "solved v (Opti r) = (case v (Opti r) of Inr y \<Rightarrow> y | Inl e \<Rightarrow> Opti r)"
| "solved v (Opaque s) = (case v (Opaque s) of Inr y \<Rightarrow> y | Inl e \<Rightarrow> Opaque s)"
| "solved_items v [] = []"
| "solved_items v (i # rest) = solved v i # solved_items v rest"
| "solved_attributes v [] = []"
| "solved_attributes v ((n, a) # rest) =
     (n, if is_number a then a else solved v a) # solved_attributes v rest"

text \<open>
  What the theorems ask of \<open>sol.value\<close>: it evaluates every symbolic expression; it
  raises nothing but the \<open>NotImplementedError\<close> that \<open>convert\<close> catches; and
  what it returns holds no symbolic value. It may evaluate a list or any other item as a
  whole.
\<close>

definition evaluates :: "('e item \<Rightarrow> error + 'e item) \<Rightarrow> bool" where
  "evaluates v \<longleftrightarrow>
     (\<forall>e. \<exists>y. v (Symbolic e) = Inr y)
     \<and> (\<forall>i e. v i = Inl e \<longrightarrow> e = NotImplementedError)
     \<and> (\<forall>i y. v i = Inr y \<longrightarrow> symbolic_free y)"

text \<open>
  What a second substitution needs of \<open>sol.value\<close> to change nothing: it evaluates
  what it returns to itself, and it evaluates no list, no tuple and no object as a whole.
\<close>

definition repeatable :: "('e item \<Rightarrow> error + 'e item) \<Rightarrow> bool" where
  "repeatable v \<longleftrightarrow>
     (\<forall>i y. v i = Inr y \<longrightarrow> v y = Inr y)
     \<and> (\<forall>xs. v (PyList xs) = Inl NotImplementedError)
     \<and> (\<forall>xs. v (PyTuple xs) = Inl NotImplementedError)
     \<and> (\<forall>oid attrs. v (Object oid attrs) = Inl NotImplementedError)"

text \<open>
  Modelled from the spec: \<open>Solution.value(expr) -> float\<close> of the optimization
  environment, which is not part of the modelled files. A solution gives every symbolic
  expression a number; \<open>value_of\<close> evaluates a symbolic expression to it and a number
  to itself as a float, and raises \<open>NotImplementedError\<close> on anything else.
\<close>

fun value_of :: "('e \<Rightarrow> pyfloat) \<Rightarrow> 'e item \<Rightarrow> error + 'e item" where
  "value_of sol (Symbolic e) = Inr (PyFloat (sol e))"
| "value_of sol (PyFloat f) = Inr (PyFloat f)"
| "value_of sol (PyInt i) = Inr (PyFloat (of_int i))"
| "value_of sol other = Inl NotImplementedError"

text \<open>
  A second \<open>sol.value\<close> to run the code on, which evaluates a list of plain numbers
  as a whole, as the one of the solver library does: beyond what \<open>value_of\<close>
  evaluates, a list of \<open>int\<close> and \<open>float\<close> values, not empty, is
  evaluated to an array of floats. On a list that holds anything else, a symbolic
  expression included, and on every other item it raises \<open>NotImplementedError\<close>.
\<close>

fun plain_number :: "'e item \<Rightarrow> bool" where
  "plain_number (PyInt i) = True"
| "plain_number (PyFloat f) = True"
| "plain_number other = False"

fun as_float :: "'e item \<Rightarrow> 'e item" where
  "as_float (PyInt i) = PyFloat (of_int i)"
| "as_float other = other"

fun array_value_of :: "('e \<Rightarrow> pyfloat) \<Rightarrow> 'e item \<Rightarrow> error + 'e item" where
  "array_value_of sol (Symbolic e) = Inr (PyFloat (sol e))"
| "array_value_of sol (PyFloat f) = Inr (PyFloat f)"
| "array_value_of sol (PyInt i) = Inr (PyFloat (of_int i))"
| "array_value_of sol (PyList xs) =
     (if xs \<noteq> [] \<and> list_all plain_number xs
      then Inr (Container ''ndarray'' (map as_float xs))
      else Inl NotImplementedError)"
| "array_value_of sol other = Inl NotImplementedError"


section \<open>common.py: \<open>ImplicitAnalysis\<close>\<close>

text \<open>
  The class \<open>Opti\<close> is not part of the modelled files. What the decorator uses of it
  are parameters, over environments of any type \<open>'o\<close> and solutions of any type
  \<open>'s\<close>: the environment that \<open>Opti()\<close> creates, \<open>opti.x.shape\<close>, the shape
  of the vector of decision variables, \<open>opti.solve()\<close>, which may raise, and
  \<open>sol.value\<close>.
\<close>

record ('o, 's, 'e) opti_class =
  new_Opti :: 'o
  x_shape :: "'o \<Rightarrow> nat \<times> nat"
  solve :: "'o \<Rightarrow> error + 's"
  sol_value :: "'s \<Rightarrow> 'e item \<Rightarrow> error + 'e item"

text \<open>
  Environments are objects that the analysis and its caller share, so they live in a
  store, from references to environments; \<open>Opti()\<close> takes the next free reference.
\<close>

record 'o store =
  heap :: "nat \<Rightarrow> 'o"
  next_ref :: nat

definition Opti_call :: "('o, 's, 'e) opti_class \<Rightarrow> 'o store \<Rightarrow> nat \<times> 'o store" where
  "Opti_call M st =
     (next_ref st, st\<lparr>heap := (heap st)(next_ref st := new_Opti M), next_ref := Suc (next_ref st)\<rparr>)"

text \<open>
  An \<open>ImplicitAnalysis\<close> object: the private attributes \<open>_opti\<close> and
  \<open>_opti_provided\<close> behind the two properties, \<open>None\<close> while the attribute does
  not exist, and the other attributes in insertion order. \<open>_opti_provided\<close> holds a
  \<open>bool\<close>, as its setter declares.
\<close>

record 'e implicit_analysis =
  p_opti :: "'e item option"
  p_opti_provided :: "bool option"
  attributes :: "(string \<times> 'e item) list"

text \<open>The getters and setters of the properties \<open>opti\<close> and \<open>opti_provided\<close>.\<close>

definition opti :: "'e implicit_analysis \<Rightarrow> error + 'e item" where
  "opti self = (case p_opti self of None \<Rightarrow> Inl ImplicitAnalysisInitError | Some v \<Rightarrow> Inr v)"

definition opti_setter :: "'e item \<Rightarrow> 'e implicit_analysis \<Rightarrow> 'e implicit_analysis" where
  "opti_setter v self = self\<lparr>p_opti := Some v\<rparr>"

definition opti_provided :: "'e implicit_analysis \<Rightarrow> error + bool" where
  "opti_provided self =
     (case p_opti_provided self of None \<Rightarrow> Inl ImplicitAnalysisInitError | Some v \<Rightarrow> Inr v)"

definition opti_provided_setter :: "bool \<Rightarrow> 'e implicit_analysis \<Rightarrow> 'e implicit_analysis" where
  "opti_provided_setter v self = self\<lparr>p_opti_provided := Some v\<rparr>"

text \<open>
  \<open>substitute_solution\<close> on an \<open>ImplicitAnalysis\<close>: its \<open>__dict__\<close> holds
  \<open>_opti\<close>, then \<open>_opti_provided\<close>, which is a \<open>bool\<close> and skipped, then the
  other attributes.
\<close>

definition substitute_solution_analysis ::
  "('e item \<Rightarrow> error + 'e item) \<Rightarrow> 'e implicit_analysis \<Rightarrow> error + 'e implicit_analysis" where
  "substitute_solution_analysis v self =
     (case p_opti self of
        None \<Rightarrow>
          (case substitute_attributes v (attributes self) of
             Inl e \<Rightarrow> Inl e
           | Inr attrs' \<Rightarrow> Inr (self\<lparr>attributes := attrs'\<rparr>))
      | Some o1 \<Rightarrow>
          (case substitute_attributes v ((''_opti'', o1) # attributes self) of
             Inl e \<Rightarrow> Inl e
           | Inr [] \<Rightarrow> Inr self
           | Inr ((n, o2) # attrs') \<Rightarrow> Inr (self\<lparr>p_opti := Some o2, attributes := attrs'\<rparr>)))"

text \<open>
  The first statement of \<open>init_wrapped\<close>: without an \<open>opti\<close> argument a new
  environment is created and installed, with one the argument itself is.
\<close>

definition install_opti ::
  "('o, 's, 'e) opti_class \<Rightarrow> 'e implicit_analysis \<Rightarrow> 'e item option \<Rightarrow> 'o store \<Rightarrow>
   'e implicit_analysis \<times> 'o store" where
  "install_opti M self opti_arg st =
     (case opti_arg of
        None \<Rightarrow>
          (let (r, st') = Opti_call M st
           in (opti_provided_setter False (opti_setter (Opti r) self), st'))
      | Some v \<Rightarrow> (opti_provided_setter True (opti_setter v self), st))"

text \<open>
  \<open>self.opti.x.shape\<close>: the property may raise, and only an environment has the
  attribute \<open>x\<close>.
\<close>

definition opti_x_shape ::
  "('o, 's, 'e) opti_class \<Rightarrow> 'e implicit_analysis \<Rightarrow> 'o store \<Rightarrow> error + (nat \<times> nat)" where
  "opti_x_shape M self st =
     (case opti self of
        Inl e \<Rightarrow> Inl e
      | Inr (Opti r) \<Rightarrow> Inr (x_shape M (heap st r))
      | Inr other \<Rightarrow> Inl AttributeError)"

definition opti_solve ::
  "('o, 's, 'e) opti_class \<Rightarrow> 'e implicit_analysis \<Rightarrow> 'o store \<Rightarrow> error + 's" where
  "opti_solve M self st =
     (case opti self of
        Inl e \<Rightarrow> Inl e
      | Inr (Opti r) \<Rightarrow> solve M (heap st r)
      | Inr other \<Rightarrow> Inl AttributeError)"

text \<open>
  The last statement of \<open>init_wrapped\<close>, the \<open>if\<close> after the wrapped
  initializer: \<open>and\<close> evaluates its second operand only when the first is true.
\<close>

definition solve_if_not_provided ::
  "('o, 's, 'e) opti_class \<Rightarrow> 'e implicit_analysis \<Rightarrow> 'o store \<Rightarrow>
   error + ('e implicit_analysis \<times> 'o store)" where
  "solve_if_not_provided M self st =
     (case opti_provided self of
        Inl e \<Rightarrow> Inl e
      | Inr provided \<Rightarrow>
          if provided then Inr (self, st)
          else (case opti_x_shape M self st of
                  Inl e \<Rightarrow> Inl e
                | Inr shape \<Rightarrow>
                    if shape = (0, 1) then Inr (self, st)
                    else (case opti_solve M self st of
                            Inl e \<Rightarrow> Inl e
                          | Inr sol \<Rightarrow>
                              (case substitute_solution_analysis (sol_value M sol) self of
                                 Inl e \<Rightarrow> Inl e
                               | Inr self' \<Rightarrow> Inr (self', st)))))"

text \<open>
  \<open>init_wrapped\<close>, what the decorator \<open>ImplicitAnalysis.initialize\<close> makes of an
  initializer \<open>init_method\<close>. The initializer, with its arguments, is a parameter: it
  works on the object and on the store, where it adds variables and constraints to the
  environment, and it may raise. \<open>opti_arg\<close> is the keyword argument \<open>opti\<close>,
  \<open>None\<close> when omitted.
\<close>

definition init_wrapped ::
  "('o, 's, 'e) opti_class \<Rightarrow>
   ('e implicit_analysis \<Rightarrow> 'o store \<Rightarrow> error + ('e implicit_analysis \<times> 'o store)) \<Rightarrow>
   'e implicit_analysis \<Rightarrow> 'e item option \<Rightarrow> 'o store \<Rightarrow>
   error + ('e implicit_analysis \<times> 'o store)" where
  "init_wrapped M init_method self opti_arg st =
     (let (self1, st1) = install_opti M self opti_arg st
      in case init_method self1 st1 of
           Inl e \<Rightarrow> Inl e
         | Inr (self2, st2) \<Rightarrow> solve_if_not_provided M self2 st2)"

text \<open>
  The round trip as the specification words it: the analysis is constructed with the
  environment that the caller supplies, the caller solves that environment and invokes
  the substitution step on the analysis. \<open>solved_externally_in\<close> is the round
  trip through an environment that the caller holds already, \<open>solved_externally\<close>
  the one through an environment that the caller has just created.
\<close>

definition solved_externally_in ::
  "('o, 's, 'e) opti_class \<Rightarrow>
   ('e implicit_analysis \<Rightarrow> 'o store \<Rightarrow> error + ('e implicit_analysis \<times> 'o store)) \<Rightarrow>
   'e implicit_analysis \<Rightarrow> nat \<Rightarrow> 'o store \<Rightarrow> error + ('e implicit_analysis \<times> 'o store)" where
  "solved_externally_in M init_method self r st1 =
     (case init_wrapped M init_method self (Some (Opti r)) st1 of
        Inl e \<Rightarrow> Inl e
      | Inr (self2, st2) \<Rightarrow>
          (case solve M (heap st2 r) of
             Inl e \<Rightarrow> Inl e
           | Inr sol \<Rightarrow>
               (case substitute_solution_analysis (sol_value M sol) self2 of
                  Inl e \<Rightarrow> Inl e
                | Inr self3 \<Rightarrow> Inr (self3, st2))))"

definition solved_externally ::
  "('o, 's, 'e) opti_class \<Rightarrow>
   ('e implicit_analysis \<Rightarrow> 'o store \<Rightarrow> error + ('e implicit_analysis \<times> 'o store)) \<Rightarrow>
   'e implicit_analysis \<Rightarrow> 'o store \<Rightarrow> error + ('e implicit_analysis \<times> 'o store)" where
  "solved_externally M init_method self st =
     (let (r, st1) = Opti_call M st
      in solved_externally_in M init_method self r st1)"

text \<open>
  An environment class to run the decorator on. An environment holds the variables that
  were declared, by name, and the constraints that were added, each by the names of the
  variables it relates. Its vector \<open>x\<close> of decision variables holds the declared
  variables that a constraint uses: a variable that is only declared is not in it. Solving
  a problem without decision variables raises \<open>RuntimeError\<close>, whose message is
  not modelled; the solution of any other gives every symbolic expression the length of
  its name. \<open>sol.value\<close> is \<open>array_value_of\<close>.
\<close>

record sample_env =
  variables :: "string list"
  constraints :: "string list list"

definition sample_x :: "sample_env \<Rightarrow> string list" where
  "sample_x env = filter (\<lambda>v. \<exists>c \<in> set (constraints env). v \<in> set c) (variables env)"

definition sample_Opti :: "(sample_env, string \<Rightarrow> pyfloat, string) opti_class" where
  "sample_Opti =
     \<lparr>new_Opti = \<lparr>variables = [], constraints = []\<rparr>,
      x_shape = (\<lambda>env. (length (sample_x env), 1)),
      solve = (\<lambda>env. if sample_x env = [] then Inl (RuntimeError '''')
                      else Inr (\<lambda>e. of_nat (length e))),
      sol_value = array_value_of\<rparr>"

text \<open>
  Two stores: one without any environment, and one in which the caller holds an
  environment, at reference 0, that has a variable and a constraint of its own.
\<close>

definition empty_store :: "sample_env store" where
  "empty_store = \<lparr>heap = (\<lambda>r. \<lparr>variables = [], constraints = []\<rparr>), next_ref = 0\<rparr>"

definition store_in_use :: "sample_env store" where
  "store_in_use =
     \<lparr>heap = (\<lambda>r. \<lparr>variables = [], constraints = []\<rparr>)
               (0 := \<lparr>variables = [''y''], constraints = [[''y'']]\<rparr>),
      next_ref = 1\<rparr>"

definition new_object :: "string implicit_analysis" where
  "new_object = \<lparr>p_opti = None, p_opti_provided = None, attributes = []\<rparr>"

text \<open>
  The statements that the initializers below are made of:
  \<open>self.n = self.opti.variable(init_guess = ...)\<close>, which declares a variable in
  the environment of the object and keeps its symbol in the attribute \<open>n\<close>;
  \<open>self.opti.subject_to(...)\<close> with a constraint on the named variables; and
  \<open>self.n = val\<close>.
\<close>

definition opti_variable ::
  "string \<Rightarrow> string implicit_analysis \<Rightarrow> sample_env store \<Rightarrow>
   error + (string implicit_analysis \<times> sample_env store)" where
  "opti_variable n self st =
     (case opti self of
        Inl e \<Rightarrow> Inl e
      | Inr (Opti r) \<Rightarrow>
          Inr (self\<lparr>attributes := attributes self @ [(n, Symbolic n)]\<rparr>,
               st\<lparr>heap := (heap st)
                    (r := (heap st r)\<lparr>variables := variables (heap st r) @ [n]\<rparr>)\<rparr>)
      | Inr other \<Rightarrow> Inl AttributeError)"

definition opti_subject_to ::
  "string list \<Rightarrow> string implicit_analysis \<Rightarrow> sample_env store \<Rightarrow>
   error + (string implicit_analysis \<times> sample_env store)" where
  "opti_subject_to c self st =
     (case opti self of
        Inl e \<Rightarrow> Inl e
      | Inr (Opti r) \<Rightarrow>
          Inr (self,
               st\<lparr>heap := (heap st)
                    (r := (heap st r)\<lparr>constraints := constraints (heap st r) @ [c]\<rparr>)\<rparr>)
      | Inr other \<Rightarrow> Inl AttributeError)"

definition set_attribute ::
  "string \<Rightarrow> string item \<Rightarrow> string implicit_analysis \<Rightarrow> sample_env store \<Rightarrow>
   error + (string implicit_analysis \<times> sample_env store)" where
  "set_attribute n val self st =
     Inr (self\<lparr>attributes := attributes self @ [(n, val)]\<rparr>, st)"

text \<open>
  The initializer of the decorator's docstring:
  \<open>self.a = self.opti.variable(init_guess = 1)\<close>,
  \<open>self.b = self.opti.variable(init_guess = 2)\<close>,
  \<open>self.opti.subject_to(self.a == self.b ** 2)\<close>.
\<close>

definition MyAnalysis_init ::
  "string implicit_analysis \<Rightarrow> sample_env store \<Rightarrow>
   error + (string implicit_analysis \<times> sample_env store)" where
  "MyAnalysis_init self st =
     and_then (opti_variable ''a'' self st) (\<lambda>(self1, st1).
     and_then (opti_variable ''b'' self1 st1) (\<lambda>(self2, st2).
     opti_subject_to [''a'', ''b''] self2 st2))"

text \<open>
  Three more initializers. The first declares a variable and adds no constraint:
  \<open>self.a = self.opti.variable(init_guess = 1)\<close>. The second is the one of the
  docstring followed by \<open>self.d = {'a': self.a}\<close>. The third is the one of the
  docstring followed by \<open>self.standalone = not self.opti_provided\<close>.
\<close>

definition unused_variable_init ::
  "string implicit_analysis \<Rightarrow> sample_env store \<Rightarrow>
   error + (string implicit_analysis \<times> sample_env store)" where
  "unused_variable_init self st = opti_variable ''a'' self st"

definition dict_init ::
  "string implicit_analysis \<Rightarrow> sample_env store \<Rightarrow>
   error + (string implicit_analysis \<times> sample_env store)" where
  "dict_init self st =
     and_then (MyAnalysis_init self st) (\<lambda>(self1, st1).
     set_attribute ''d'' (PyDict [(''a'', Symbolic ''a'')]) self1 st1)"

definition standalone_init ::
  "string implicit_analysis \<Rightarrow> sample_env store \<Rightarrow>
   error + (string implicit_analysis \<times> sample_env store)" where
  "standalone_init self st =
     and_then (MyAnalysis_init self st) (\<lambda>(self1, st1).
     and_then (opti_provided self1) (\<lambda>provided.
     set_attribute ''standalone'' (PyBool (\<not> provided)) self1 st1))"


section \<open>Properties of \<open>motor_electric_performance\<close>\<close>

lemmas body_defs = all_known_def loop_body_def
  if_rpm_known_def if_torque_known_def if_voltage_known_def if_current_known_def
  and_then_def num_def py_div_def

lemma np_pi_nonzero: "np_pi \<noteq> 0"
  by (simp add: np_pi_def)

text \<open>A result reached within \<open>n\<close> iterations is the result for every larger bound.\<close>

lemma while_loop_more:
  "while_loop n k rs nl s = Some res \<Longrightarrow> while_loop (n + m) k rs nl s = Some res"
proof (induction n arbitrary: s)
  case 0
  then show ?case by (cases m) (simp_all split: if_splits)
next
  case (Suc n)
  show ?case
  proof (cases "all_known s")
    case True
    with Suc.prems show ?thesis by simp
  next
    case False
    show ?thesis
    proof (cases "loop_body k rs nl s")
      case (Inl e)
      with False Suc.prems show ?thesis by auto
    next
      case (Inr s')
      with False Suc.prems have "while_loop n k rs nl s' = Some res" by simp
      then have "while_loop (n + m) k rs nl s' = Some res" by (rule Suc.IH)
      with False Inr show ?thesis by simp
    qed
  qed
qed

text \<open>The five pairs of arguments that pass both assertions.\<close>

lemma accepted_cases:
  "accepted v c r t \<longleftrightarrow>
     (\<exists>x y. (v = Some x \<and> c = Some y \<and> r = None \<and> t = None)
          \<or> (v = Some x \<and> c = None \<and> r = Some y \<and> t = None)
          \<or> (v = Some x \<and> c = None \<and> r = None \<and> t = Some y)
          \<or> (v = None \<and> c = Some x \<and> r = Some y \<and> t = None)
          \<or> (v = None \<and> c = None \<and> r = Some x \<and> t = Some y))"
  by (cases v; cases c; cases r; cases t) (simp_all add: accepted_def count_known_def)

lemma rejected:
  "\<not> accepted v c r t \<Longrightarrow>
     \<exists>msg. \<forall>n. motor_electric_performance n v c r t kv rs nl = Some (Inl (AssertionError msg))"
  by (cases v; cases c; cases r; cases t)
     (simp_all add: accepted_def count_known_def motor_electric_performance_def initial_vars_def)

lemma accepted_passes:
  "accepted v c r t \<Longrightarrow> motor_electric_performance n v c r t kv rs nl =
     (case while_loop n (kv * np_pi / 30) rs nl (initial_vars v c r t) of
        None \<Rightarrow> None
      | Some (Inl e) \<Rightarrow> Some (Inl e)
      | Some (Inr s') \<Rightarrow> Some (efficiency_of s'))"
  unfolding accepted_cases
  by (elim exE disjE conjE)
     (simp_all add: motor_electric_performance_def initial_vars_def count_known_def)

lemma motor_more:
  assumes "motor_electric_performance n v c r t kv rs nl = Some res"
  shows "motor_electric_performance (n + m) v c r t kv rs nl = Some res"
proof (cases "accepted v c r t")
  case False
  from rejected[OF False, of kv rs nl] assms show ?thesis by auto
next
  case True
  show ?thesis
  proof (cases "while_loop n (kv * np_pi / 30) rs nl (initial_vars v c r t)")
    case None
    with assms True show ?thesis by (simp add: accepted_passes)
  next
    case (Some w)
    then have "while_loop (n + m) (kv * np_pi / 30) rs nl (initial_vars v c r t) = Some w"
      by (rule while_loop_more)
    with Some assms True show ?thesis by (simp add: accepted_passes)
  qed
qed

text \<open>
  Two iterations end the loop on every accepted call: either a division by zero left
  it, or all four quantities are known, the supplied ones unchanged.
\<close>

lemma loop_two:
  "accepted v c r t \<Longrightarrow>
     while_loop 2 k rs nl (initial_vars v c r t) = Some (Inl ZeroDivisionError) \<or>
     (\<exists>s'. while_loop 2 k rs nl (initial_vars v c r t) = Some (Inr s') \<and> all_numbers s'
        \<and> (v \<noteq> None \<longrightarrow> voltage s' = v) \<and> (c \<noteq> None \<longrightarrow> current s' = c)
        \<and> (r \<noteq> None \<longrightarrow> rpm s' = r) \<and> (t \<noteq> None \<longrightarrow> torque s' = t))"
  unfolding accepted_cases
  by (elim exE disjE conjE)
     (simp_all add: body_defs all_numbers_def initial_vars_def numeral_2_eq_2)

lemma loop_two_nonzero:
  "accepted v c r t \<Longrightarrow> k \<noteq> 0 \<Longrightarrow> rs \<noteq> 0 \<Longrightarrow>
     (\<exists>s'. while_loop 2 k rs nl (initial_vars v c r t) = Some (Inr s') \<and> all_numbers s'
        \<and> (v \<noteq> None \<longrightarrow> voltage s' = v) \<and> (c \<noteq> None \<longrightarrow> current s' = c)
        \<and> (r \<noteq> None \<longrightarrow> rpm s' = r) \<and> (t \<noteq> None \<longrightarrow> torque s' = t))"
  unfolding accepted_cases
  by (elim exE disjE conjE)
     (simp_all add: body_defs all_numbers_def initial_vars_def numeral_2_eq_2 np_pi_nonzero)

lemma efficiency_of_solved:
  "all_numbers s \<Longrightarrow>
     efficiency_of s = outcome (the (voltage s)) (the (current s)) (the (rpm s)) (the (torque s))"
  by (auto simp: all_numbers_def efficiency_of_def outcome_def and_then_def num_def py_div_def)

lemma efficiency_of_error:
  "all_numbers s \<Longrightarrow> efficiency_of s = Inl e \<Longrightarrow> e = ZeroDivisionError"
  by (auto simp: all_numbers_def efficiency_of_def and_then_def num_def py_div_def split: if_splits)

text \<open>The pair of rpm and torque needs the second iteration.\<close>

lemma one_iteration_not_enough:
  "motor_electric_performance 1 None None (Some r) (Some t) kv rs nl = None"
  by (simp add: motor_electric_performance_def initial_vars_def count_known_def body_defs)

text \<open>
  Claim C10, as the code has it. On a call that supplies exactly two of voltage, current,
  rpm and torque, other than the pair of current and torque, the loop ends within two
  iterations: the function gives the same result for every bound of two or more, it
  raises no exception other than \<open>ZeroDivisionError\<close>, and when \<open>kv\<close> and
  \<open>resistance\<close> are not zero it reaches the efficiency with all four quantities
  solved, the supplied ones as given, where it returns the five values unless
  \<open>voltage * current\<close> is zero. On every other combination of arguments an
  assertion fails, whatever the bound, so before the loop is entered.
\<close>

theorem motor_electric_performance_two_iterations:
  "(accepted v c r t \<longrightarrow>
      (\<exists>res. motor_electric_performance 2 v c r t kv rs nl = Some res
         \<and> (\<forall>m. motor_electric_performance (2 + m) v c r t kv rs nl = Some res)
         \<and> (\<forall>e. res = Inl e \<longrightarrow> e = ZeroDivisionError)
         \<and> (kv \<noteq> 0 \<and> rs \<noteq> 0 \<longrightarrow>
              (\<exists>v' c' r' t'. res = outcome v' c' r' t'
                 \<and> (v \<noteq> None \<longrightarrow> v = Some v') \<and> (c \<noteq> None \<longrightarrow> c = Some c')
                 \<and> (r \<noteq> None \<longrightarrow> r = Some r') \<and> (t \<noteq> None \<longrightarrow> t = Some t')))))
   \<and> (\<not> accepted v c r t \<longrightarrow>
      (\<exists>msg. \<forall>n. motor_electric_performance n v c r t kv rs nl
                    = Some (Inl (AssertionError msg))))"
proof (intro conjI impI)
  assume acc: "accepted v c r t"
  let ?k = "kv * np_pi / 30"
  let ?w = "while_loop 2 ?k rs nl (initial_vars v c r t)"
  from loop_two[OF acc, of ?k rs nl]
  consider (zero) "?w = Some (Inl ZeroDivisionError)"
    | (numbers) s' where "?w = Some (Inr s')" "all_numbers s'"
    by blast
  then obtain res where res: "motor_electric_performance 2 v c r t kv rs nl = Some res"
    and err: "\<forall>e. res = Inl e \<longrightarrow> e = ZeroDivisionError"
  proof cases
    case zero
    then have "motor_electric_performance 2 v c r t kv rs nl = Some (Inl ZeroDivisionError)"
      by (simp add: accepted_passes[OF acc])
    then show ?thesis by (rule that) simp
  next
    case numbers
    then have "motor_electric_performance 2 v c r t kv rs nl = Some (efficiency_of s')"
      by (simp add: accepted_passes[OF acc])
    then show ?thesis
      by (rule that) (use numbers(2) in \<open>auto dest: efficiency_of_error\<close>)
  qed
  have more: "\<forall>m. motor_electric_performance (2 + m) v c r t kv rs nl = Some res"
    using motor_more[OF res] by simp
  have nz: "\<exists>v' c' r' t'. res = outcome v' c' r' t'
                 \<and> (v \<noteq> None \<longrightarrow> v = Some v') \<and> (c \<noteq> None \<longrightarrow> c = Some c')
                 \<and> (r \<noteq> None \<longrightarrow> r = Some r') \<and> (t \<noteq> None \<longrightarrow> t = Some t')"
    if "kv \<noteq> 0 \<and> rs \<noteq> 0"
  proof -
    from that have k: "?k \<noteq> 0" by (simp add: np_pi_nonzero)
    from that have rs: "rs \<noteq> 0" by simp
    from loop_two_nonzero[OF acc k rs, of nl]
    obtain s' where s': "?w = Some (Inr s')" "all_numbers s'"
        "v \<noteq> None \<longrightarrow> voltage s' = v" "c \<noteq> None \<longrightarrow> current s' = c"
        "r \<noteq> None \<longrightarrow> rpm s' = r" "t \<noteq> None \<longrightarrow> torque s' = t"
      by blast
    from s'(1) res have "res = efficiency_of s'"
      by (simp add: accepted_passes[OF acc])
    with s'(2) have "res = outcome (the (voltage s')) (the (current s'))
                                   (the (rpm s')) (the (torque s'))"
      by (simp add: efficiency_of_solved)
    moreover from s' have "v \<noteq> None \<longrightarrow> v = Some (the (voltage s'))"
      "c \<noteq> None \<longrightarrow> c = Some (the (current s'))"
      "r \<noteq> None \<longrightarrow> r = Some (the (rpm s'))"
      "t \<noteq> None \<longrightarrow> t = Some (the (torque s'))"
      by (auto simp: all_numbers_def)
    ultimately show ?thesis by blast
  qed
  from res more err nz
  show "\<exists>res. motor_electric_performance 2 v c r t kv rs nl = Some res
         \<and> (\<forall>m. motor_electric_performance (2 + m) v c r t kv rs nl = Some res)
         \<and> (\<forall>e. res = Inl e \<longrightarrow> e = ZeroDivisionError)
         \<and> (kv \<noteq> 0 \<and> rs \<noteq> 0 \<longrightarrow>
              (\<exists>v' c' r' t'. res = outcome v' c' r' t'
                 \<and> (v \<noteq> None \<longrightarrow> v = Some v') \<and> (c \<noteq> None \<longrightarrow> c = Some c')
                 \<and> (r \<noteq> None \<longrightarrow> r = Some r') \<and> (t \<noteq> None \<longrightarrow> t = Some t')))"
    by blast
next
  assume "\<not> accepted v c r t"
  then show "\<exists>msg. \<forall>n. motor_electric_performance n v c r t kv rs nl
                         = Some (Inl (AssertionError msg))"
    by (rule rejected)
qed

text \<open>
  The theorem at the first call of the module's own script (rpm 100, current 3, default
  motor constants), which is accepted, and at a call with one argument, which is not.
\<close>

theorem motor_electric_performance_two_iterations_witness:
  "accepted None (Some 3) (Some 100) None
   \<and> default_kv \<noteq> 0 \<and> default_resistance \<noteq> 0
   \<and> (\<exists>res. motor_electric_performance 2 None (Some 3) (Some 100) None
                 default_kv default_resistance default_no_load_current = Some res
          \<and> (\<forall>e. res = Inl e \<longrightarrow> e = ZeroDivisionError)
          \<and> (\<exists>v' c' r' t'. res = outcome v' c' r' t' \<and> c' = 3 \<and> r' = 100))
   \<and> \<not> accepted (Some 12) None None None
   \<and> (\<exists>msg. \<forall>n. motor_electric_performance n (Some 12) None None None
                 default_kv default_resistance default_no_load_current
               = Some (Inl (AssertionError msg)))"
proof -
  have a: "accepted None (Some 3) (Some 100) None"
    by (simp add: accepted_def count_known_def)
  have b: "\<not> accepted (Some 12) None None None"
    by (simp add: accepted_def count_known_def)
  have c: "default_kv \<noteq> 0 \<and> default_resistance \<noteq> 0"
    by (simp add: default_kv_def default_resistance_def)
  from a c motor_electric_performance_two_iterations
    [of None "Some 3" "Some 100" None default_kv default_resistance default_no_load_current]
  have "\<exists>res. motor_electric_performance 2 None (Some 3) (Some 100) None
                 default_kv default_resistance default_no_load_current = Some res
          \<and> (\<forall>e. res = Inl e \<longrightarrow> e = ZeroDivisionError)
          \<and> (\<exists>v' c' r' t'. res = outcome v' c' r' t' \<and> c' = 3 \<and> r' = 100)"
    by auto
  moreover from b motor_electric_performance_two_iterations
    [of "Some 12" None None None default_kv default_resistance default_no_load_current]
  have "\<exists>msg. \<forall>n. motor_electric_performance n (Some 12) None None None
                 default_kv default_resistance default_no_load_current
               = Some (Inl (AssertionError msg))"
    by blast
  ultimately show ?thesis using a b c by blast
qed

text \<open>
  The claim as stated fails where a divisor is zero: the call with voltage 0 and current
  1 passes both assertions, and its loop ends, but the efficiency then divides by
  \<open>voltage * current = 0\<close>, so the function raises instead of returning.
\<close>

theorem motor_electric_performance_zero_division:
  "accepted (Some 0) (Some 1) None None
   \<and> motor_electric_performance 2 (Some 0) (Some 1) None None
         default_kv default_resistance default_no_load_current
       = Some (Inl ZeroDivisionError)"
  by (simp add: accepted_def count_known_def motor_electric_performance_def initial_vars_def
        body_defs efficiency_of_def np_pi_def default_kv_def default_resistance_def
        default_no_load_current_def numeral_2_eq_2)


section \<open>Properties of the analysis-specific options\<close>

lemma keys_simps:
  "keys [] = []" "keys ((k, v) # d) = k # keys d" "keys (kv # d) = fst kv # keys d"
  by (simp_all add: keys_def)

lemma map_of_keys: "map_of d k = None \<longleftrightarrow> k \<notin> set (keys d)"
  by (simp add: keys_def map_of_eq_None_iff)

lemma keys_setitem: "keys (setitem d k v) = (if k \<in> set (keys d) then keys d else keys d @ [k])"
  by (induction d) (auto simp: keys_simps)

lemma map_of_setitem: "map_of (setitem d k v) = (map_of d)(k \<mapsto> v)"
  by (induction d) (auto simp: fun_eq_iff)

lemma distinct_setitem: "distinct (keys (setitem d k v)) = distinct (keys d)"
  by (simp add: keys_setitem)

lemma default_options_Inr:
  "default_options dflt ks acc = Inr d \<Longrightarrow>
     set (keys d) = set (keys acc) \<union> set ks
     \<and> (\<forall>k. map_of d k = (if k \<in> set ks then map_of dflt k else map_of acc k))
     \<and> (distinct (keys acc) \<longrightarrow> distinct (keys d))"
proof (induction ks arbitrary: acc)
  case Nil
  then show ?case by simp
next
  case (Cons key rest)
  from Cons.prems obtain v where v: "map_of dflt key = Some v"
    and rest: "default_options dflt rest (setitem acc key v) = Inr d"
    by (auto simp: getitem_def split: option.splits)
  from Cons.IH[OF rest] v show ?case
    by (auto simp: keys_setitem map_of_setitem distinct_setitem split: if_splits)
qed

lemma default_options_total:
  "\<forall>k \<in> set ks. map_of dflt k \<noteq> None \<Longrightarrow> \<exists>d. default_options dflt ks acc = Inr d"
  by (induction ks arbitrary: acc) (auto simp: getitem_def)

lemma default_options_Inl:
  "default_options dflt ks acc = Inl e \<Longrightarrow> \<exists>k \<in> set ks. map_of dflt k = None \<and> e = KeyError k"
  by (induction ks arbitrary: acc) (auto simp: getitem_def split: option.splits)

lemma user_options_Inr:
  "user_options self a opts user = Inr d \<Longrightarrow> distinct (keys user) \<Longrightarrow>
     keys d = keys opts \<and> set (keys user) \<subseteq> set (keys opts)
     \<and> (\<forall>k. map_of d k = (case map_of user k of Some v \<Rightarrow> Some v | None \<Rightarrow> map_of opts k))"
proof (induction user arbitrary: opts)
  case Nil
  then show ?case by (simp add: keys_simps)
next
  case (Cons kv rest)
  obtain key v where kv: "kv = (key, v)" by (cases kv)
  from Cons.prems kv have valid: "key \<in> set (keys opts)"
    and rest: "user_options self a (setitem opts key v) rest = Inr d"
    and dist: "distinct (keys rest)" and fresh: "key \<notin> set (keys rest)"
    by (auto simp: keys_simps split: if_splits)
  from fresh have none: "map_of rest key = None"
    by (simp add: map_of_keys)
  from valid have same: "keys (setitem opts key v) = keys opts"
    by (simp add: keys_setitem)
  from Cons.IH[OF rest dist] have ih: "keys d = keys opts" "set (keys rest) \<subseteq> set (keys opts)"
    "\<And>k. map_of d k = (case map_of rest k of Some v \<Rightarrow> Some v | None \<Rightarrow> map_of (setitem opts key v) k)"
    unfolding same by auto
  have "map_of d k = (case map_of (kv # rest) k of Some v \<Rightarrow> Some v | None \<Rightarrow> map_of opts k)" for k
    using ih(3)[of k] none kv by (auto simp: map_of_setitem split: option.splits)
  with ih(1,2) valid kv show ?case by (simp add: keys_simps)
qed

lemma user_options_total:
  "set (keys user) \<subseteq> set (keys opts) \<Longrightarrow> \<exists>d. user_options self a opts user = Inr d"
proof (induction user arbitrary: opts)
  case Nil
  then show ?case by simp
next
  case (Cons kv rest)
  obtain key v where kv: "kv = (key, v)" by (cases kv)
  with Cons.prems have valid: "key \<in> set (keys opts)" and "set (keys rest) \<subseteq> set (keys opts)"
    by (auto simp: keys_simps)
  then have "set (keys rest) \<subseteq> set (keys (setitem opts key v))"
    by (simp add: keys_setitem)
  from Cons.IH[OF this] valid kv show ?case by simp
qed

lemma user_options_Inl:
  "user_options self a opts user = Inl e \<Longrightarrow>
     \<exists>k. e = ValueError k self a (keys opts) \<and> k \<in> set (keys user) \<and> k \<notin> set (keys opts)"
proof (induction user arbitrary: opts)
  case Nil
  then show ?case by simp
next
  case (Cons kv rest)
  obtain key v where kv: "kv = (key, v)" by (cases kv)
  show ?case
  proof (cases "key \<in> set (keys opts)")
    case True
    then have same: "keys (setitem opts key v) = keys opts"
      by (simp add: keys_setitem)
    from True Cons.prems kv have "user_options self a (setitem opts key v) rest = Inl e" by simp
    from Cons.IH[OF this] show ?thesis
      unfolding same by (auto simp: keys_simps)
  next
    case False
    with Cons.prems kv show ?thesis by (auto simp: keys_simps)
  qed
qed

lemma user_options_invalid:
  assumes "\<not> set (keys user) \<subseteq> set (keys opts)"
  shows "\<exists>k. user_options self a opts user = Inl (ValueError k self a (keys opts))
              \<and> k \<in> set (keys user) \<and> k \<notin> set (keys opts)"
using assms
proof (induction user arbitrary: opts)
  case Nil
  then show ?case by (simp add: keys_simps)
next
  case (Cons kv rest)
  obtain key v where kv: "kv = (key, v)" by (cases kv)
  show ?case
  proof (cases "key \<in> set (keys opts)")
    case True
    then have same: "keys (setitem opts key v) = keys opts"
      by (simp add: keys_setitem)
    from True Cons.prems kv have "\<not> set (keys rest) \<subseteq> set (keys (setitem opts key v))"
      unfolding same by (auto simp: keys_simps)
    from Cons.IH[OF this] True kv show ?thesis
      unfolding same by (auto simp: keys_simps)
  next
    case False
    with kv show ?thesis by (auto simp: keys_simps)
  qed
qed


lemma valid_options_getitem:
  "getitem (option_keys a) self = Inr ks \<Longrightarrow> valid_options self a = ks"
  by (auto simp: getitem_def valid_options_def split: option.splits)

lemma complete_for_getitem:
  "complete_for self a \<Longrightarrow> getitem (option_keys a) self = Inr (valid_options self a)"
  by (auto simp: complete_for_def getitem_def valid_options_def split: option.splits)

lemma complete_for_defaults:
  assumes "complete_for self a"
  shows "\<exists>dflt.
    default_options (default_analysis_specific_options a) (valid_options self a) [] = Inr dflt
    \<and> set (keys dflt) = set (valid_options self a) \<and> distinct (keys dflt)
    \<and> (\<forall>k. map_of dflt k = (if k \<in> set (valid_options self a)
                            then map_of (default_analysis_specific_options a) k else None))"
proof -
  from assms have "\<forall>k \<in> set (valid_options self a). map_of (default_analysis_specific_options a) k \<noteq> None"
    by (simp add: complete_for_def)
  from default_options_total[OF this, of "[]"] obtain dflt where
    d: "default_options (default_analysis_specific_options a) (valid_options self a) [] = Inr dflt"
    by blast
  from default_options_Inr[OF d] d show ?thesis
    by (auto simp: keys_simps)
qed

lemma validate_Inr_complete:
  assumes "validate_analysis_specific_options self a user = Inr opts"
  shows "complete_for self a \<and> all_valid self a user"
proof -
  from assms obtain ks dflt where ks: "getitem (option_keys a) self = Inr ks"
    and d: "default_options (default_analysis_specific_options a) ks [] = Inr dflt"
    and u: "(if user \<noteq> [] then user_options self (analysis_name a) dflt user else Inr dflt) = Inr opts"
    by (auto simp: validate_analysis_specific_options_def split: sum.splits)
  have v: "valid_options self a = ks" using ks by (rule valid_options_getitem)
  from default_options_Inr[OF d] have kd: "set (keys dflt) = set ks"
    and md: "\<And>k. k \<in> set ks \<Longrightarrow> map_of dflt k = map_of (default_analysis_specific_options a) k"
    by (auto simp: keys_simps)
  have "map_of (default_analysis_specific_options a) k \<noteq> None" if "k \<in> set ks" for k
  proof -
    from kd that have "map_of dflt k \<noteq> None" by (simp add: map_of_keys)
    with md[OF that] show ?thesis by simp
  qed
  with ks v have c: "complete_for self a"
    by (auto simp: complete_for_def getitem_def split: option.splits)
  have "set (keys user) \<subseteq> set (keys dflt)"
  proof (rule ccontr)
    assume "\<not> set (keys user) \<subseteq> set (keys dflt)"
    from user_options_invalid[OF this, of self "analysis_name a"] u show False
      by (auto simp: keys_simps split: if_splits)
  qed
  with kd v have "all_valid self a user" by (auto simp: all_valid_def)
  with c show ?thesis ..
qed

lemma validate_complete:
  assumes c: "complete_for self a"
  shows "validate_analysis_specific_options self a user =
     (case default_options (default_analysis_specific_options a) (valid_options self a) [] of
        Inl e \<Rightarrow> Inl e
      | Inr dflt \<Rightarrow> if user \<noteq> [] then user_options self (analysis_name a) dflt user else Inr dflt)"
  by (simp add: validate_analysis_specific_options_def complete_for_getitem[OF c])

lemma validate_returns:
  assumes c: "complete_for self a" and v: "all_valid self a user"
  shows "\<exists>opts. validate_analysis_specific_options self a user = Inr opts"
proof -
  from complete_for_defaults[OF c] obtain dflt where
    d: "default_options (default_analysis_specific_options a) (valid_options self a) [] = Inr dflt"
    and kd: "set (keys dflt) = set (valid_options self a)"
    by blast
  from v kd have "set (keys user) \<subseteq> set (keys dflt)" by (auto simp: all_valid_def)
  from user_options_total[OF this, of self "analysis_name a"] d show ?thesis
    by (auto simp: validate_complete[OF c])
qed

lemma validate_result:
  assumes r: "validate_analysis_specific_options self a user = Inr opts" and u: "distinct (keys user)"
  shows "set (keys opts) = set (valid_options self a) \<and> distinct (keys opts)
     \<and> (\<forall>k. map_of opts k =
           (if k \<in> set (valid_options self a)
            then (case map_of user k of Some v \<Rightarrow> Some v
                  | None \<Rightarrow> map_of (default_analysis_specific_options a) k)
            else None))"
proof -
  from validate_Inr_complete[OF r] have c: "complete_for self a" and v: "all_valid self a user"
    by auto
  from complete_for_defaults[OF c] obtain dflt where
    d: "default_options (default_analysis_specific_options a) (valid_options self a) [] = Inr dflt"
    and kd: "set (keys dflt) = set (valid_options self a)" and dd: "distinct (keys dflt)"
    and md: "\<And>k. map_of dflt k = (if k \<in> set (valid_options self a)
                            then map_of (default_analysis_specific_options a) k else None)"
    by blast
  show ?thesis
  proof (cases "user = []")
    case True
    with r d have "opts = dflt" by (simp add: validate_complete[OF c])
    with kd dd md True show ?thesis by simp
  next
    case False
    with r d have "user_options self (analysis_name a) dflt user = Inr opts"
      by (simp add: validate_complete[OF c])
    from user_options_Inr[OF this u] have ko: "keys opts = keys dflt"
      and mo: "\<And>k. map_of opts k = (case map_of user k of Some v \<Rightarrow> Some v | None \<Rightarrow> map_of dflt k)"
      by auto
    have "map_of opts k = (if k \<in> set (valid_options self a)
            then (case map_of user k of Some v \<Rightarrow> Some v
                  | None \<Rightarrow> map_of (default_analysis_specific_options a) k)
            else None)" for k
    proof (cases "map_of user k")
      case None
      with mo[of k] md[of k] show ?thesis by simp
    next
      case (Some x)
      then have "k \<in> set (keys user)" by (metis map_of_keys option.distinct(1))
      with v have "k \<in> set (valid_options self a)" by (simp add: all_valid_def)
      with Some mo[of k] show ?thesis by simp
    qed
    with ko kd dd show ?thesis by simp
  qed
qed

lemma validate_invalid:
  assumes c: "complete_for self a" and v: "\<not> all_valid self a user"
  shows "\<exists>k vs. validate_analysis_specific_options self a user
                  = Inl (ValueError k self (analysis_name a) vs)
     \<and> k \<in> set (keys user) \<and> k \<notin> set (valid_options self a)
     \<and> set vs = set (valid_options self a)"
proof -
  from complete_for_defaults[OF c] obtain dflt where
    d: "default_options (default_analysis_specific_options a) (valid_options self a) [] = Inr dflt"
    and kd: "set (keys dflt) = set (valid_options self a)"
    by blast
  from v kd have n: "\<not> set (keys user) \<subseteq> set (keys dflt)" by (auto simp: all_valid_def)
  then have "user \<noteq> []" by (auto simp: keys_simps)
  with user_options_invalid[OF n, of self "analysis_name a"] d kd show ?thesis
    by (auto simp: validate_complete[OF c])
qed

lemma validate_no_ValueError:
  assumes "all_valid self a user"
  shows "validate_analysis_specific_options self a user \<noteq> Inl (ValueError k c n vs)"
proof
  assume e: "validate_analysis_specific_options self a user = Inl (ValueError k c n vs)"
  show False
  proof (cases "getitem (option_keys a) self")
    case (Inl e')
    with e show False by (auto simp: validate_analysis_specific_options_def getitem_def split: option.splits)
  next
    case (Inr ks)
    note ks = this
    show False
    proof (cases "default_options (default_analysis_specific_options a) ks []")
      case (Inl e')
      from default_options_Inl[OF this] e ks Inl show False
        by (auto simp: validate_analysis_specific_options_def)
    next
      case (Inr dflt)
      from default_options_Inr[OF this] have kd: "set (keys dflt) = set ks" by (simp add: keys_simps)
      from e ks Inr have "user_options self (analysis_name a) dflt user = Inl (ValueError k c n vs)"
        by (auto simp: validate_analysis_specific_options_def split: if_splits)
      from user_options_Inl[OF this] obtain k' where "k' \<in> set (keys user)" "k' \<notin> set (keys dflt)"
        by blast
      with assms kd valid_options_getitem[OF ks] show False by (auto simp: all_valid_def)
    qed
  qed
qed

section \<open>Properties of \<open>parse_analysis_specific_options\<close> and of the constructor\<close>

lemma parse_returns:
  "\<forall>(a, u) \<in> set opts. complete_for self a \<and> all_valid self a u \<Longrightarrow>
     \<exists>opts'. parse_analysis_specific_options self opts = Inr opts'"
proof (induction opts)
  case Nil
  then show ?case by simp
next
  case (Cons au rest)
  obtain a u where au: "au = (a, u)" by (cases au)
  with Cons.prems have "complete_for self a" "all_valid self a u" by auto
  from validate_returns[OF this] obtain o1 where "validate_analysis_specific_options self a u = Inr o1"
    by blast
  moreover from Cons obtain o2 where "parse_analysis_specific_options self rest = Inr o2"
    by auto
  ultimately show ?case using au by simp
qed

lemma parse_invalid:
  assumes "\<forall>(a, u) \<in> set opts. complete_for self a"
    and "\<exists>(a, u) \<in> set opts. \<not> all_valid self a u"
  shows "\<exists>k a u vs. parse_analysis_specific_options self opts
                      = Inl (ValueError k self (analysis_name a) vs)
     \<and> (a, u) \<in> set opts \<and> k \<in> set (keys u) \<and> k \<notin> set (valid_options self a)
     \<and> set vs = set (valid_options self a)"
  using assms
proof (induction opts)
  case Nil
  then show ?case by simp
next
  case (Cons au rest)
  obtain a u where au: "au = (a, u)" by (cases au)
  with Cons.prems have c: "complete_for self a" by auto
  show ?case
  proof (cases "all_valid self a u")
    case False
    from validate_invalid[OF c False] obtain k vs where
      "validate_analysis_specific_options self a u = Inl (ValueError k self (analysis_name a) vs)"
      "k \<in> set (keys u)" "k \<notin> set (valid_options self a)" "set vs = set (valid_options self a)"
      by blast
    with au show ?thesis
      by (intro exI[of _ k] exI[of _ a] exI[of _ u] exI[of _ vs]) simp
  next
    case True
    from validate_returns[OF c True] obtain o1 where
      o1: "validate_analysis_specific_options self a u = Inr o1" by blast
    from True Cons.prems au have "\<forall>(a, u) \<in> set rest. complete_for self a"
      "\<exists>(a, u) \<in> set rest. \<not> all_valid self a u" by auto
    from Cons.IH[OF this] obtain k a' u' vs where
      "parse_analysis_specific_options self rest = Inl (ValueError k self (analysis_name a') vs)"
      "(a', u') \<in> set rest" "k \<in> set (keys u')" "k \<notin> set (valid_options self a')"
      "set vs = set (valid_options self a')"
      by blast
    with o1 au show ?thesis
      by (intro exI[of _ k] exI[of _ a'] exI[of _ u'] exI[of _ vs]) simp
  qed
qed

lemma parse_no_ValueError:
  "\<forall>(a, u) \<in> set opts. all_valid self a u \<Longrightarrow>
     parse_analysis_specific_options self opts \<noteq> Inl (ValueError k c n vs)"
proof (induction opts)
  case Nil
  then show ?case by simp
next
  case (Cons au rest)
  obtain a u where au: "au = (a, u)" by (cases au)
  with Cons.prems have "all_valid self a u" by auto
  from validate_no_ValueError[OF this, of k c n vs] Cons au show ?case
    by (auto split: sum.splits)
qed

lemma Airplane_init_after_references:
  "reference_values m (case ws of Some l \<Rightarrow> l | None \<Rightarrow> []) s c b = Inr (s', c', b') \<Longrightarrow>
   Airplane_init m nm xyz ws fs s c b opts =
     (case parse_analysis_specific_options Airplane opts of
        Inl e \<Rightarrow> Inl e
      | Inr opts' \<Rightarrow>
          Inr \<lparr>name = nm, xyz_ref = xyz, wings = (case ws of Some l \<Rightarrow> l | None \<Rightarrow> []),
               fuselages = (case fs of Some l \<Rightarrow> l | None \<Rightarrow> []),
               s_ref = s', c_ref = c', b_ref = b', analysis_specific_options = opts'\<rparr>)"
  by (simp add: Airplane_init_def)

lemma reference_values_no_wing:
  "reference_values m [] s c b = Inr (s, c, b)"
  by (simp add: reference_values_def except_IndexError_def)


text \<open>
  Claim C8. \<open>validate_analysis_specific_options\<close> returns exactly when the analysis
  lists option keys for the class of the object, with a default for each, and every key
  the user supplied is one of them. The dict it returns has the keys of
  \<open>option_keys[self]\<close> and no other: a key the user supplied maps to the user's value,
  every other key to its default in \<open>default_analysis_specific_options\<close>. On an empty
  user dict these are the defaults, which is also what \<open>get_analysis_specific_options\<close>
  returns for an analysis the object holds no options for. The user's dict has distinct
  keys, as every dict has.
\<close>

theorem validate_analysis_specific_options_result:
  assumes "distinct (keys user)"
  shows "(complete_for self a \<and> all_valid self a user \<longrightarrow>
            (\<exists>opts. validate_analysis_specific_options self a user = Inr opts))
       \<and> (\<forall>opts. validate_analysis_specific_options self a user = Inr opts \<longrightarrow>
            set (keys opts) = set (valid_options self a) \<and> distinct (keys opts)
            \<and> (\<forall>k. map_of opts k =
                  (if k \<in> set (valid_options self a)
                   then (case map_of user k of Some v \<Rightarrow> Some v
                         | None \<Rightarrow> map_of (default_analysis_specific_options a) k)
                   else None)))
       \<and> (complete_for self a \<longrightarrow>
            (\<exists>opts. validate_analysis_specific_options self a [] = Inr opts
               \<and> (\<forall>k. map_of opts k =
                     (if k \<in> set (valid_options self a)
                      then map_of (default_analysis_specific_options a) k else None))))
       \<and> (map_of d a = None \<longrightarrow>
            get_analysis_specific_options self d a = validate_analysis_specific_options self a [])"
proof (intro conjI impI allI)
  assume "complete_for self a \<and> all_valid self a user"
  then show "\<exists>opts. validate_analysis_specific_options self a user = Inr opts"
    by (simp add: validate_returns)
next
  fix opts assume r: "validate_analysis_specific_options self a user = Inr opts"
  from validate_result[OF r assms]
  show "set (keys opts) = set (valid_options self a)" "distinct (keys opts)"
    "\<And>k. map_of opts k =
                  (if k \<in> set (valid_options self a)
                   then (case map_of user k of Some v \<Rightarrow> Some v
                         | None \<Rightarrow> map_of (default_analysis_specific_options a) k)
                   else None)"
    by auto
next
  assume c: "complete_for self a"
  have "all_valid self a []" by (simp add: all_valid_def keys_simps)
  from validate_returns[OF c this] obtain opts where
    r: "validate_analysis_specific_options self a [] = Inr opts" by blast
  from validate_result[OF r] have "\<forall>k. map_of opts k =
                     (if k \<in> set (valid_options self a)
                      then map_of (default_analysis_specific_options a) k else None)"
    by (simp add: keys_simps)
  with r show "\<exists>opts. validate_analysis_specific_options self a [] = Inr opts
               \<and> (\<forall>k. map_of opts k =
                     (if k \<in> set (valid_options self a)
                      then map_of (default_analysis_specific_options a) k else None))"
    by blast
next
  assume "map_of d a = None"
  then show "get_analysis_specific_options self d a = validate_analysis_specific_options self a []"
    by (simp add: get_analysis_specific_options_def)
qed

text \<open>
  The theorem on the sample analysis: the user sets its one option to 5, and an object
  without options for the analysis gets the defaults.
\<close>

theorem validate_analysis_specific_options_result_witness:
  "distinct (keys [(''profile_drag_coefficient'', 5 :: pyfloat)])
   \<and> complete_for Airplane sample_analysis
   \<and> all_valid Airplane sample_analysis [(''profile_drag_coefficient'', 5)]
   \<and> validate_analysis_specific_options Airplane sample_analysis
         [(''profile_drag_coefficient'', 5)] = Inr [(''profile_drag_coefficient'', 5)]
   \<and> map_of [(''profile_drag_coefficient'', 5 :: pyfloat)] ''profile_drag_coefficient''
       = (if ''profile_drag_coefficient'' \<in> set (valid_options Airplane sample_analysis)
          then (case map_of [(''profile_drag_coefficient'', 5)] ''profile_drag_coefficient'' of
                  Some v \<Rightarrow> Some v
                | None \<Rightarrow> map_of (default_analysis_specific_options sample_analysis)
                           ''profile_drag_coefficient'')
          else None)
   \<and> map_of ([] :: (pyfloat analysis, (string, pyfloat) dict) dict) sample_analysis = None
   \<and> get_analysis_specific_options Airplane [] sample_analysis
       = validate_analysis_specific_options Airplane sample_analysis []"
proof -
  let ?u = "[(''profile_drag_coefficient'', 5 :: pyfloat)]"
  have d: "distinct (keys ?u)" by (simp add: keys_simps)
  have c: "complete_for Airplane sample_analysis"
    by (simp add: complete_for_def valid_options_def sample_analysis_def Airplane_def)
  have v: "all_valid Airplane sample_analysis ?u"
    by (simp add: all_valid_def valid_options_def sample_analysis_def Airplane_def keys_simps)
  have r: "validate_analysis_specific_options Airplane sample_analysis ?u = Inr ?u"
    by (simp add: validate_analysis_specific_options_def getitem_def sample_analysis_def
          Airplane_def keys_simps)
  note t = validate_analysis_specific_options_result[OF d, of Airplane sample_analysis "[]"]
  from t r have "map_of ?u ''profile_drag_coefficient''
       = (if ''profile_drag_coefficient'' \<in> set (valid_options Airplane sample_analysis)
          then (case map_of ?u ''profile_drag_coefficient'' of
                  Some v \<Rightarrow> Some v
                | None \<Rightarrow> map_of (default_analysis_specific_options sample_analysis)
                           ''profile_drag_coefficient'')
          else None)"
    by blast
  moreover from t have "get_analysis_specific_options Airplane [] sample_analysis
       = validate_analysis_specific_options Airplane sample_analysis []"
    by simp
  ultimately show ?thesis using d c v r by simp
qed

text \<open>
  Claim C5. A key that is not a valid option for the class under the analysis makes
  \<open>validate_analysis_specific_options\<close> raise \<open>ValueError\<close>, whose message names
  the key and lists the valid option keys. The constructor of \<open>Airplane\<close> validates
  its options as its last statement, so a dict with such a key under one of its analyses
  makes the construction fail with that error, and no object is returned; when every
  supplied key is valid the constructor raises no \<open>ValueError\<close> and returns the
  object. The analyses are taken to be complete for the class (option keys listed, a
  default for each), and the statements before the validation to have run through.
\<close>

theorem invalid_option_fails_construction:
  assumes "reference_values m (case ws of Some l \<Rightarrow> l | None \<Rightarrow> []) s c b = Inr refs"
  shows "(complete_for self a \<and> \<not> all_valid self a user \<longrightarrow>
            (\<exists>k vs. validate_analysis_specific_options self a user
                       = Inl (ValueError k self (analysis_name a) vs)
               \<and> k \<in> set (keys user) \<and> k \<notin> set (valid_options self a)
               \<and> set vs = set (valid_options self a)))
       \<and> ((\<forall>(a, u) \<in> set opts. complete_for Airplane a)
            \<and> (\<exists>(a, u) \<in> set opts. \<not> all_valid Airplane a u) \<longrightarrow>
            (\<exists>k a u vs. Airplane_init m nm xyz ws fs s c b opts
                          = Inl (ValueError k Airplane (analysis_name a) vs)
               \<and> (a, u) \<in> set opts \<and> k \<in> set (keys u) \<and> k \<notin> set (valid_options Airplane a)
               \<and> set vs = set (valid_options Airplane a)))
       \<and> ((\<forall>(a, u) \<in> set opts. all_valid Airplane a u) \<longrightarrow>
            (\<forall>k cl n vs. Airplane_init m nm xyz ws fs s c b opts \<noteq> Inl (ValueError k cl n vs))
            \<and> ((\<forall>(a, u) \<in> set opts. complete_for Airplane a) \<longrightarrow>
                 (\<exists>ap. Airplane_init m nm xyz ws fs s c b opts = Inr ap)))"
proof -
  obtain s' c' b' where refs: "refs = (s', c', b')" by (cases refs)
  note init = Airplane_init_after_references[OF assms[unfolded refs], of nm xyz fs opts]
  have 1: "\<exists>k vs. validate_analysis_specific_options self a user
                       = Inl (ValueError k self (analysis_name a) vs)
               \<and> k \<in> set (keys user) \<and> k \<notin> set (valid_options self a)
               \<and> set vs = set (valid_options self a)"
    if "complete_for self a \<and> \<not> all_valid self a user"
    using that by (simp add: validate_invalid)
  have 2: "\<exists>k a u vs. Airplane_init m nm xyz ws fs s c b opts
                          = Inl (ValueError k Airplane (analysis_name a) vs)
               \<and> (a, u) \<in> set opts \<and> k \<in> set (keys u) \<and> k \<notin> set (valid_options Airplane a)
               \<and> set vs = set (valid_options Airplane a)"
    if "(\<forall>(a, u) \<in> set opts. complete_for Airplane a)
            \<and> (\<exists>(a, u) \<in> set opts. \<not> all_valid Airplane a u)"
  proof -
    from that have "\<forall>(a, u) \<in> set opts. complete_for Airplane a"
      "\<exists>(a, u) \<in> set opts. \<not> all_valid Airplane a u" by auto
    from parse_invalid[OF this] obtain k a u vs where
      "parse_analysis_specific_options Airplane opts = Inl (ValueError k Airplane (analysis_name a) vs)"
      "(a, u) \<in> set opts" "k \<in> set (keys u)" "k \<notin> set (valid_options Airplane a)"
      "set vs = set (valid_options Airplane a)"
      by blast
    then show ?thesis
      by (intro exI[of _ k] exI[of _ a] exI[of _ u] exI[of _ vs]) (simp add: init)
  qed
  have 3: "Airplane_init m nm xyz ws fs s c b opts \<noteq> Inl (ValueError k cl n vs)"
    if "\<forall>(a, u) \<in> set opts. all_valid Airplane a u" for k cl n vs
    using parse_no_ValueError[OF that, of k cl n vs]
    by (auto simp: init split: sum.splits)
  have 4: "\<exists>ap. Airplane_init m nm xyz ws fs s c b opts = Inr ap"
    if "\<forall>(a, u) \<in> set opts. all_valid Airplane a u" "\<forall>(a, u) \<in> set opts. complete_for Airplane a"
  proof -
    from that have "\<forall>(a, u) \<in> set opts. complete_for Airplane a \<and> all_valid Airplane a u"
      by auto
    from parse_returns[OF this] show ?thesis by (auto simp: init)
  qed
  from 1 2 3 4 show ?thesis by blast
qed

text \<open>
  The theorem on the sample analysis: the key \<open>component\<close> is not among its options
  for airplanes and fails the construction, the key \<open>profile_drag_coefficient\<close> is
  and does not.
\<close>

theorem invalid_option_fails_construction_witness:
  "reference_values sample_wing_methods (case None of Some l \<Rightarrow> l | None \<Rightarrow> []) None None None
     = Inr (None, None, None)
   \<and> (complete_for Airplane sample_analysis
        \<and> \<not> all_valid Airplane sample_analysis [(''component'', 1)])
   \<and> (\<exists>k vs. validate_analysis_specific_options Airplane sample_analysis [(''component'', 1)]
                = Inl (ValueError k Airplane (analysis_name sample_analysis) vs)
          \<and> k \<in> set (keys [(''component'', 1 :: pyfloat)])
          \<and> k \<notin> set (valid_options Airplane sample_analysis)
          \<and> set vs = set (valid_options Airplane sample_analysis))
   \<and> (\<exists>k a u vs. Airplane_init sample_wing_methods ''Untitled'' [0, 0, 0] None
                     (None :: unit list option) None None None
                     [(sample_analysis, [(''component'', 1)])]
                   = Inl (ValueError k Airplane (analysis_name a) vs)
          \<and> (a, u) \<in> set [(sample_analysis, [(''component'', 1 :: pyfloat)])]
          \<and> k \<in> set (keys u) \<and> k \<notin> set (valid_options Airplane a)
          \<and> set vs = set (valid_options Airplane a))
   \<and> all_valid Airplane sample_analysis [(''profile_drag_coefficient'', 5)]
   \<and> (\<exists>ap. Airplane_init sample_wing_methods ''Untitled'' [0, 0, 0] None
                (None :: unit list option) None None None
                [(sample_analysis, [(''profile_drag_coefficient'', 5)])] = Inr ap)"
proof -
  let ?bad = "[(sample_analysis, [(''component'', 1 :: pyfloat)])]"
  let ?good = "[(sample_analysis, [(''profile_drag_coefficient'', 5 :: pyfloat)])]"
  have h: "reference_values sample_wing_methods (case None of Some l \<Rightarrow> l | None \<Rightarrow> [])
             None None None = Inr (None, None, None)"
    by (simp add: reference_values_no_wing)
  have c: "complete_for Airplane sample_analysis"
    by (simp add: complete_for_def valid_options_def sample_analysis_def Airplane_def)
  have n: "\<not> all_valid Airplane sample_analysis [(''component'', 1)]"
    by (simp add: all_valid_def valid_options_def sample_analysis_def Airplane_def keys_simps)
  have v: "all_valid Airplane sample_analysis [(''profile_drag_coefficient'', 5)]"
    by (simp add: all_valid_def valid_options_def sample_analysis_def Airplane_def keys_simps)
  have cn: "complete_for Airplane sample_analysis
        \<and> \<not> all_valid Airplane sample_analysis [(''component'', 1)]"
    using c n by (rule conjI)
  have cb: "\<forall>(a, u) \<in> set ?bad. complete_for Airplane a" using c by simp
  have nb: "\<exists>(a, u) \<in> set ?bad. \<not> all_valid Airplane a u" using n by simp
  have cnb: "(\<forall>(a, u) \<in> set ?bad. complete_for Airplane a)
        \<and> (\<exists>(a, u) \<in> set ?bad. \<not> all_valid Airplane a u)"
    using cb nb by (rule conjI)
  have vg: "\<forall>(a, u) \<in> set ?good. all_valid Airplane a u" using v by simp
  have cg: "\<forall>(a, u) \<in> set ?good. complete_for Airplane a" using c by simp
  note bad = invalid_option_fails_construction[OF h, where self = Airplane and a = sample_analysis
      and user = "[(''component'', 1)]" and opts = ?bad and nm = "''Untitled''"
      and xyz = "[0, 0, 0]" and fs = "None :: unit list option"]
  note good = invalid_option_fails_construction[OF h, where self = Airplane and a = sample_analysis
      and user = "[(''component'', 1)]" and opts = ?good and nm = "''Untitled''"
      and xyz = "[0, 0, 0]" and fs = "None :: unit list option"]
  note 1 = mp[OF bad[THEN conjunct1] cn]
  note 2 = mp[OF bad[THEN conjunct2, THEN conjunct1] cnb]
  note 3 = mp[OF mp[OF good[THEN conjunct2, THEN conjunct2], THEN conjunct2] cg, OF vg]
  show ?thesis
    by (intro conjI h c n 1 2 v 3)
qed



section \<open>Properties of \<open>substitute_solution\<close>\<close>

lemma evaluatesD:
  assumes "evaluates v"
  shows "\<exists>y. v (Symbolic e) = Inr y"
    and "v i = Inl err \<Longrightarrow> err = NotImplementedError"
    and "v i = Inr y \<Longrightarrow> symbolic_free y"
  using assms unfolding evaluates_def by blast+

lemma repeatableD:
  assumes "repeatable v"
  shows "v i = Inr y \<Longrightarrow> v y = Inr y"
    and "v (PyList xs) = Inl NotImplementedError"
    and "v (PyTuple xs) = Inl NotImplementedError"
    and "v (Object oid attrs) = Inl NotImplementedError"
  using assms unfolding repeatable_def by blast+

lemma try_value_simps:
  "try_value (Inr y) k = Inr y"
  "try_value (Inl NotImplementedError) k = k"
  by (simp_all add: try_value_def)

lemma convert_atom:
  assumes "evaluates v"
  shows "try_value (v i) (Inr k) = Inr (case v i of Inr y \<Rightarrow> y | Inl e \<Rightarrow> k)"
proof (cases "v i")
  case (Inl e)
  with evaluatesD(2)[OF assms this] show ?thesis by (simp add: try_value_simps)
next
  case (Inr y)
  then show ?thesis by (simp add: try_value_simps)
qed

lemma convert_solved:
  "evaluates v \<Longrightarrow> convert v a = Inr (solved v a)"
  "evaluates v \<Longrightarrow> convert_items v xs = Inr (solved_items v xs)"
  "evaluates v \<Longrightarrow> substitute_attributes v as = Inr (solved_attributes v as)"
proof (induction v a and v xs and v as rule: convert_convert_items_substitute_attributes.induct)
  case (15 v attrib_name attrib_value rest)
  then show ?case by (simp add: Let_def)
qed (simp_all add: convert_atom)

lemma symbolic_free_replaced:
  "symbolic_free (a :: 'e item) \<Longrightarrow> replaced a"
  "symbolic_free_items (xs :: 'e item list) \<Longrightarrow> replaced_items xs"
  "symbolic_free_attributes (as :: (string \<times> 'e item) list) \<Longrightarrow> replaced_attributes as"
  by (induction a and xs and as rule: symbolic_free_symbolic_free_items_symbolic_free_attributes.induct)
    simp_all

lemma solved_replaced:
  "evaluates v \<Longrightarrow> replaced (solved v a)"
  "evaluates v \<Longrightarrow> replaced_items (solved_items v xs)"
  "evaluates v \<Longrightarrow> replaced_attributes (solved_attributes v as)"
proof (induction v a and v xs and v as rule: solved_solved_items_solved_attributes.induct)
  case (9 v e)
  from evaluatesD(1)[OF 9, of e] obtain y where y: "v (Symbolic e) = Inr y" by blast
  with evaluatesD(3)[OF 9 y] show ?case by (simp add: symbolic_free_replaced)
next
  case (15 v n a rest)
  then show ?case by (cases a) simp_all
next
  case (1 v oid attrs)
  then show ?case
    by (cases "v (Object oid attrs)") (simp_all add: symbolic_free_replaced evaluatesD(3))
next
  case (2 v xs)
  then show ?case
    by (cases "v (PyList xs)") (simp_all add: symbolic_free_replaced evaluatesD(3))
next
  case (3 v xs)
  then show ?case
    by (cases "v (PyTuple xs)") (simp_all add: symbolic_free_replaced evaluatesD(3))
qed (simp_all split: sum.splits add: symbolic_free_replaced evaluatesD(3))

lemma solved_symbolic_free:
  "evaluates v \<Longrightarrow> nested_in_lists a \<Longrightarrow> symbolic_free (solved v a)"
  "evaluates v \<Longrightarrow> nested_in_lists_items xs \<Longrightarrow> symbolic_free_items (solved_items v xs)"
  "evaluates v \<Longrightarrow> nested_in_lists_attributes as \<Longrightarrow>
     symbolic_free_attributes (solved_attributes v as)"
proof (induction v a and v xs and v as rule: solved_solved_items_solved_attributes.induct)
  case (9 v e)
  from evaluatesD(1)[OF 9(1), of e] obtain y where y: "v (Symbolic e) = Inr y" by blast
  with evaluatesD(3)[OF 9(1) y] show ?case by simp
next
  case (15 v n a rest)
  then show ?case by (cases a) simp_all
next
  case (1 v oid attrs)
  then show ?case
    by (cases "v (Object oid attrs)") (simp_all add: evaluatesD(3))
next
  case (2 v xs)
  then show ?case
    by (cases "v (PyList xs)") (simp_all add: evaluatesD(3))
next
  case (3 v xs)
  then show ?case
    by (cases "v (PyTuple xs)") (simp_all add: evaluatesD(3))
qed (simp_all split: sum.splits add: evaluatesD(3))

lemma solved_value:
  assumes "v y = Inr y"
  shows "solved v y = y"
  using assms by (cases y) simp_all

lemma solved_idem:
  "repeatable v \<Longrightarrow> solved v (solved v a) = solved v a"
  "repeatable v \<Longrightarrow> solved_items v (solved_items v xs) = solved_items v xs"
  "repeatable v \<Longrightarrow> solved_attributes v (solved_attributes v as) = solved_attributes v as"
proof (induction v a and v xs and v as rule: solved_solved_items_solved_attributes.induct)
  case (15 v n a rest)
  then show ?case by simp
next
  case (1 v oid attrs)
  then show ?case by (simp add: repeatableD(4))
next
  case (2 v xs)
  then show ?case by (simp add: repeatableD(2))
next
  case (3 v xs)
  then show ?case by (simp add: repeatableD(2,3))
next
  case (4 v d)
  then show ?case
    by (cases "v (PyDict d)") (simp_all add: solved_value repeatableD(1))
next
  case (5 v k xs)
  then show ?case
    by (cases "v (Container k xs)") (simp_all add: solved_value repeatableD(1))
next
  case (6 v b)
  then show ?case
    by (cases "v (PyBool b)") (simp_all add: solved_value repeatableD(1))
next
  case (7 v i)
  then show ?case
    by (cases "v (PyInt i)") (simp_all add: solved_value repeatableD(1))
next
  case (8 v f)
  then show ?case
    by (cases "v (PyFloat f)") (simp_all add: solved_value repeatableD(1))
next
  case (9 v e)
  then show ?case
    by (cases "v (Symbolic e)") (simp_all add: solved_value repeatableD(1))
next
  case (10 v r)
  then show ?case
    by (cases "v (Opti r)") (simp_all add: solved_value repeatableD(1))
next
  case (11 v s)
  then show ?case
    by (cases "v (Opaque s)") (simp_all add: solved_value repeatableD(1))
qed simp_all

lemma solved_attributes_names: "map fst (solved_attributes v as) = map fst as"
  by (induction as) auto

lemma solved_attributes_nth:
  "i < length as \<Longrightarrow> solved_attributes v as ! i
     = (fst (as ! i), if is_number (snd (as ! i)) then snd (as ! i) else solved v (snd (as ! i)))"
proof (induction as arbitrary: i)
  case Nil
  then show ?case by simp
next
  case (Cons na as)
  then show ?case by (cases na; cases i) simp_all
qed

lemma value_of_evaluates: "evaluates (value_of sol)"
proof -
  have 1: "e = NotImplementedError" if "value_of sol i = Inl e" for i e
    using that by (cases i) simp_all
  have 2: "symbolic_free y" if "value_of sol i = Inr y" for i y
    using that by (cases i) auto
  from 1 2 show ?thesis unfolding evaluates_def by simp
qed

lemma value_of_repeatable: "repeatable (value_of sol)"
proof -
  have "value_of sol y = Inr y" if "value_of sol i = Inr y" for i y
    using that by (cases i) auto
  then show ?thesis unfolding repeatable_def by simp
qed

lemma as_float_symbolic_free:
  "list_all plain_number xs \<Longrightarrow> symbolic_free_items (map as_float xs)"
proof (induction xs)
  case Nil
  then show ?case by simp
next
  case (Cons a xs)
  then show ?case by (cases a) simp_all
qed

lemma array_value_of_evaluates: "evaluates (array_value_of sol)"
proof -
  have 1: "e = NotImplementedError" if "array_value_of sol i = Inl e" for i e
    using that by (cases i) (simp_all split: if_splits)
  have 2: "symbolic_free y" if "array_value_of sol i = Inr y" for i y
    using that by (cases i) (auto split: if_splits simp: as_float_symbolic_free)
  from 1 2 show ?thesis unfolding evaluates_def by simp
qed

text \<open>
  Claim C4, as the code has it. For every object and every solution whose
  \<open>sol.value\<close> evaluates every symbolic expression, raises nothing but
  \<open>NotImplementedError\<close> and returns values without symbolic values,
  \<open>substitute_solution\<close> returns the object itself (the same identity) with its
  attributes replaced as the specification words it. Afterwards no symbolic value is held
  by an attribute itself or nested inside lists, tuples and sub-objects; the attribute
  names are the same; an attribute that is a number is not touched; an attribute that
  holds a symbolic expression holds its solved value. An attribute that is a dict or
  another container, which \<open>sol.value\<close> does not evaluate, is left as it is, with
  the symbolic values it holds: the object is free of symbolic values afterwards when no
  dict and no other container in it held one. A second substitution with the same
  solution changes nothing when \<open>sol.value\<close> evaluates its results to themselves
  and evaluates no list, tuple or object as a whole.
\<close>

theorem substitute_solution_replaces:
  assumes "evaluates v"
  shows "substitute_solution v (oid, attrs) = Inr (oid, solved_attributes v attrs)
     \<and> replaced_attributes (solved_attributes v attrs)
     \<and> map fst (solved_attributes v attrs) = map fst attrs
     \<and> (\<forall>i < length attrs. is_number (snd (attrs ! i)) \<longrightarrow>
           solved_attributes v attrs ! i = attrs ! i)
     \<and> (\<forall>i < length attrs. \<forall>e. snd (attrs ! i) = Symbolic e \<longrightarrow>
           v (Symbolic e) = Inr (snd (solved_attributes v attrs ! i)))
     \<and> (\<forall>i < length attrs. \<forall>d.
           snd (attrs ! i) = PyDict d \<and> v (PyDict d) = Inl NotImplementedError \<longrightarrow>
           solved_attributes v attrs ! i = attrs ! i)
     \<and> (\<forall>i < length attrs. \<forall>k xs.
           snd (attrs ! i) = Container k xs \<and> v (Container k xs) = Inl NotImplementedError \<longrightarrow>
           solved_attributes v attrs ! i = attrs ! i)
     \<and> (nested_in_lists_attributes attrs \<longrightarrow>
           symbolic_free_attributes (solved_attributes v attrs))
     \<and> (repeatable v \<longrightarrow>
           substitute_solution v (oid, solved_attributes v attrs)
             = Inr (oid, solved_attributes v attrs))"
proof -
  note nth = solved_attributes_nth[of _ attrs v]
  have num: "solved_attributes v attrs ! i = attrs ! i"
    if "i < length attrs" "is_number (snd (attrs ! i))" for i
    using nth[OF that(1)] that(2) by simp
  have sym: "v (Symbolic e) = Inr (snd (solved_attributes v attrs ! i))"
    if "i < length attrs" "snd (attrs ! i) = Symbolic e" for i e
  proof -
    from evaluatesD(1)[OF assms, of e] obtain y where y: "v (Symbolic e) = Inr y" by blast
    with nth[OF that(1)] that(2) show ?thesis by simp
  qed
  have dict: "solved_attributes v attrs ! i = attrs ! i"
    if "i < length attrs" "snd (attrs ! i) = PyDict d \<and> v (PyDict d) = Inl NotImplementedError"
    for i d
    using nth[OF that(1)] that(2) by (simp add: prod_eq_iff)
  have cont: "solved_attributes v attrs ! i = attrs ! i"
    if "i < length attrs"
      "snd (attrs ! i) = Container k xs \<and> v (Container k xs) = Inl NotImplementedError"
    for i k xs
    using nth[OF that(1)] that(2) by (simp add: prod_eq_iff)
  have first: "substitute_solution v (oid, attrs) = Inr (oid, solved_attributes v attrs)"
    by (simp add: substitute_solution_def convert_solved(3)[OF assms])
  have again: "substitute_solution v (oid, solved_attributes v attrs)
             = Inr (oid, solved_attributes v attrs)" if "repeatable v"
    by (simp add: substitute_solution_def convert_solved(3)[OF assms] solved_idem(3)[OF that])
  from first solved_replaced(3)[OF assms] solved_attributes_names num sym dict cont
    solved_symbolic_free(3)[OF assms] again
  show ?thesis by blast
qed

text \<open>
  The theorem on an object with a symbolic attribute, a number, a list with a tuple in it,
  a sub-object, a string and a dict of numbers, under the solution that gives an
  expression the length of its name and evaluates nothing but expressions and numbers.
\<close>

theorem substitute_solution_replaces_witness:
  "evaluates (value_of (\<lambda>e :: string. of_nat (length e)))
   \<and> repeatable (value_of (\<lambda>e :: string. of_nat (length e)))
   \<and> nested_in_lists_attributes
        [(''a'', Symbolic ''a''), (''n'', PyInt 3),
         (''l'', PyList [Symbolic ''bb'', PyTuple [Symbolic ''c'', PyInt 2]]),
         (''sub'', Object 2 [(''t'', Symbolic ''ttt''), (''flag'', PyBool True)]),
         (''name'', Opaque ''wing''), (''d'', PyDict [(''k'', PyInt 1)])]
   \<and> substitute_solution (value_of (\<lambda>e. of_nat (length e)))
        (7, [(''a'', Symbolic ''a''), (''n'', PyInt 3),
             (''l'', PyList [Symbolic ''bb'', PyTuple [Symbolic ''c'', PyInt 2]]),
             (''sub'', Object 2 [(''t'', Symbolic ''ttt''), (''flag'', PyBool True)]),
             (''name'', Opaque ''wing''), (''d'', PyDict [(''k'', PyInt 1)])])
      = Inr (7, [(''a'', PyFloat 1), (''n'', PyInt 3),
                 (''l'', PyList [PyFloat 2, PyList [PyFloat 1, PyFloat 2]]),
                 (''sub'', Object 2 [(''t'', PyFloat 3), (''flag'', PyBool True)]),
                 (''name'', Opaque ''wing''), (''d'', PyDict [(''k'', PyInt 1)])])
   \<and> replaced_attributes
        [(''a'', PyFloat 1 :: string item), (''n'', PyInt 3),
         (''l'', PyList [PyFloat 2, PyList [PyFloat 1, PyFloat 2]]),
         (''sub'', Object 2 [(''t'', PyFloat 3), (''flag'', PyBool True)]),
         (''name'', Opaque ''wing''), (''d'', PyDict [(''k'', PyInt 1)])]
   \<and> symbolic_free_attributes
        [(''a'', PyFloat 1 :: string item), (''n'', PyInt 3),
         (''l'', PyList [PyFloat 2, PyList [PyFloat 1, PyFloat 2]]),
         (''sub'', Object 2 [(''t'', PyFloat 3), (''flag'', PyBool True)]),
         (''name'', Opaque ''wing''), (''d'', PyDict [(''k'', PyInt 1)])]
   \<and> substitute_solution (value_of (\<lambda>e :: string. of_nat (length e)))
        (7, [(''a'', PyFloat 1), (''n'', PyInt 3),
             (''l'', PyList [PyFloat 2, PyList [PyFloat 1, PyFloat 2]]),
             (''sub'', Object 2 [(''t'', PyFloat 3), (''flag'', PyBool True)]),
             (''name'', Opaque ''wing''), (''d'', PyDict [(''k'', PyInt 1)])])
      = Inr (7, [(''a'', PyFloat 1), (''n'', PyInt 3),
                 (''l'', PyList [PyFloat 2, PyList [PyFloat 1, PyFloat 2]]),
                 (''sub'', Object 2 [(''t'', PyFloat 3), (''flag'', PyBool True)]),
                 (''name'', Opaque ''wing''), (''d'', PyDict [(''k'', PyInt 1)])])"
proof -
  let ?v = "value_of (\<lambda>e :: string. of_nat (length e))"
  let ?attrs = "[(''a'', Symbolic ''a''), (''n'', PyInt 3),
             (''l'', PyList [Symbolic ''bb'', PyTuple [Symbolic ''c'', PyInt 2]]),
             (''sub'', Object 2 [(''t'', Symbolic ''ttt''), (''flag'', PyBool True)]),
             (''name'', Opaque ''wing''), (''d'', PyDict [(''k'', PyInt 1)])]"
  have ev: "evaluates ?v" by (rule value_of_evaluates)
  have re: "repeatable ?v" by (rule value_of_repeatable)
  have ne: "nested_in_lists_attributes ?attrs" by simp
  have s: "solved_attributes ?v ?attrs
      = [(''a'', PyFloat 1), (''n'', PyInt 3),
         (''l'', PyList [PyFloat 2, PyList [PyFloat 1, PyFloat 2]]),
         (''sub'', Object 2 [(''t'', PyFloat 3), (''flag'', PyBool True)]),
         (''name'', Opaque ''wing''), (''d'', PyDict [(''k'', PyInt 1)])]"
    by simp
  note t = substitute_solution_replaces[OF ev, of 7 ?attrs, unfolded s]
  note t1 = t[THEN conjunct1]
  note t2 = t[THEN conjunct2, THEN conjunct1]
  note t8 = t[THEN conjunct2, THEN conjunct2, THEN conjunct2, THEN conjunct2, THEN conjunct2,
      THEN conjunct2, THEN conjunct2, THEN conjunct1, THEN mp, OF ne]
  note t9 = t[THEN conjunct2, THEN conjunct2, THEN conjunct2, THEN conjunct2, THEN conjunct2,
      THEN conjunct2, THEN conjunct2, THEN conjunct2, THEN mp, OF re]
  show ?thesis by (intro conjI ev re ne t1 t2 t8 t9)
qed

text \<open>
  The claim as stated fails twice. Under a solution whose \<open>sol.value\<close> evaluates a
  list of plain numbers as a whole, the first substitution turns the list
  \<open>[a, 2]\<close> with the symbolic value \<open>a\<close> into the list \<open>[1.0, 2.0]\<close>,
  and the second turns that list into an array: the second substitution changes the
  object. And a symbolic value that a dict holds is not replaced: the dict is returned
  as it is.
\<close>

theorem substitute_solution_twice_differs:
  "substitute_solution (array_value_of (\<lambda>e :: string. of_nat (length e)))
        (7, [(''l'', PyList [Symbolic ''a'', PyInt 2])])
      = Inr (7, [(''l'', PyList [PyFloat 1, PyFloat 2])])
   \<and> substitute_solution (array_value_of (\<lambda>e :: string. of_nat (length e)))
        (7, [(''l'', PyList [PyFloat 1, PyFloat 2])])
      = Inr (7, [(''l'', Container ''ndarray'' [PyFloat 1, PyFloat 2])])
   \<and> substitute_solution (array_value_of (\<lambda>e :: string. of_nat (length e)))
        (7, [(''d'', PyDict [(''k'', Symbolic ''a'')])])
      = Inr (7, [(''d'', PyDict [(''k'', Symbolic ''a'')])])
   \<and> \<not> symbolic_free_attributes [(''d'', PyDict [(''k'', Symbolic ''a'')])]"
  by (simp add: substitute_solution_def try_value_def)


section \<open>Properties of \<open>ImplicitAnalysis\<close>\<close>

lemmas sample_defs = MyAnalysis_init_def unused_variable_init_def dict_init_def
  standalone_init_def opti_variable_def opti_subject_to_def set_attribute_def and_then_def
  opti_def opti_setter_def opti_provided_def opti_provided_setter_def Opti_call_def
  sample_Opti_def sample_x_def empty_store_def store_in_use_def new_object_def

lemmas run_defs = init_wrapped_def install_opti_def solve_if_not_provided_def
  opti_x_shape_def opti_solve_def solved_externally_def solved_externally_in_def
  substitute_solution_analysis_def try_value_def

lemma substitute_attributes_length:
  "substitute_attributes v as = Inr as' \<Longrightarrow> map fst as' = map fst as"
proof (induction as arbitrary: as')
  case Nil
  then show ?case by simp
next
  case (Cons na as)
  obtain n a where na: "na = (n, a)" by (cases na)
  from Cons.prems na obtain rest' y where "as' = (n, y) # rest'"
    "substitute_attributes v as = Inr rest'"
    by (auto simp: Let_def split: if_splits sum.splits)
  with Cons.IH[of rest'] na show ?case by simp
qed

lemma substitute_solution_analysis_cases:
  assumes "substitute_solution_analysis v self = Inr self'"
  obtains (absent) attrs' where "p_opti self = None"
      "substitute_attributes v (attributes self) = Inr attrs'"
      "self' = self\<lparr>attributes := attrs'\<rparr>"
    | (present) o1 o2 attrs' where "p_opti self = Some o1"
      "substitute_attributes v ((''_opti'', o1) # attributes self) = Inr ((''_opti'', o2) # attrs')"
      "self' = self\<lparr>p_opti := Some o2, attributes := attrs'\<rparr>"
proof (cases "p_opti self")
  case None
  with assms obtain attrs' where "substitute_attributes v (attributes self) = Inr attrs'"
    "self' = self\<lparr>attributes := attrs'\<rparr>"
    by (auto simp: substitute_solution_analysis_def split: sum.splits)
  with None show ?thesis by (rule absent)
next
  case (Some o1)
  with assms obtain L where L: "substitute_attributes v ((''_opti'', o1) # attributes self) = Inr L"
    by (auto simp: substitute_solution_analysis_def split: sum.splits)
  from substitute_attributes_length[OF L] obtain o2 attrs' where "L = (''_opti'', o2) # attrs'"
    by (cases L) auto
  with assms Some L have "substitute_attributes v ((''_opti'', o1) # attributes self)
        = Inr ((''_opti'', o2) # attrs')"
    "self' = self\<lparr>p_opti := Some o2, attributes := attrs'\<rparr>"
    by (auto simp: substitute_solution_analysis_def)
  with Some show ?thesis by (rule present)
qed

lemma substitute_solution_analysis_slots:
  assumes "substitute_solution_analysis v self = Inr self'"
  shows "p_opti_provided self' = p_opti_provided self"
    and "p_opti self' = None \<longleftrightarrow> p_opti self = None"
    and "map fst (attributes self') = map fst (attributes self)"
proof -
  show "p_opti_provided self' = p_opti_provided self"
    using assms by (cases rule: substitute_solution_analysis_cases) simp_all
  show "p_opti self' = None \<longleftrightarrow> p_opti self = None"
    using assms by (cases rule: substitute_solution_analysis_cases) simp_all
  show "map fst (attributes self') = map fst (attributes self)"
    using assms
  proof (cases rule: substitute_solution_analysis_cases)
    case (absent attrs')
    with substitute_attributes_length[OF absent(2)] show ?thesis by simp
  next
    case (present o1 o2 attrs')
    with substitute_attributes_length[OF present(2)] show ?thesis by simp
  qed
qed

lemma substitute_solution_analysis_flag:
  "substitute_solution_analysis v (self\<lparr>p_opti_provided := b\<rparr>)
     = (case substitute_solution_analysis v self of
          Inl e \<Rightarrow> Inl e
        | Inr self' \<Rightarrow> Inr (self'\<lparr>p_opti_provided := b\<rparr>))"
  unfolding substitute_solution_analysis_def
  by (simp split: option.splits sum.splits list.splits)

lemma substitute_solution_analysis_evaluates:
  assumes "evaluates v"
  shows "substitute_solution_analysis v self =
     Inr (self\<lparr>p_opti := map_option (\<lambda>a. if is_number a then a else solved v a) (p_opti self),
               attributes := solved_attributes v (attributes self)\<rparr>)"
  unfolding substitute_solution_analysis_def convert_solved(3)[OF assms]
  by (cases "p_opti self") simp_all

lemma install_opti_simps:
  "install_opti M self (Some v) st = (self\<lparr>p_opti := Some v, p_opti_provided := Some True\<rparr>, st)"
  "install_opti M self None st =
     (self\<lparr>p_opti := Some (Opti (next_ref st)), p_opti_provided := Some False\<rparr>,
      snd (Opti_call M st))"
  by (simp_all add: install_opti_def opti_setter_def opti_provided_setter_def Opti_call_def)

text \<open>
  Claim C6. Reading \<open>opti\<close> or \<open>opti_provided\<close> on an object that has no
  \<open>_opti\<close> or no \<open>_opti_provided\<close>, which is every object whose initializer
  was not wrapped by the decorator, raises \<open>ImplicitAnalysisInitError\<close>. Once a
  setter has stored a value the getter returns it; after the first statement of
  \<open>init_wrapped\<close> both properties return what it stored; and the substitution of a
  solution leaves \<open>opti_provided\<close> as it is and \<open>opti\<close> readable.
\<close>

theorem opti_properties:
  "(p_opti self = None \<longrightarrow> opti self = Inl ImplicitAnalysisInitError)
   \<and> (p_opti_provided self = None \<longrightarrow> opti_provided self = Inl ImplicitAnalysisInitError)
   \<and> opti (opti_setter v self) = Inr v
   \<and> opti_provided (opti_provided_setter b self) = Inr b
   \<and> opti (opti_provided_setter b self) = opti self
   \<and> opti_provided (opti_setter v self) = opti_provided self
   \<and> opti (fst (install_opti M self None st)) = Inr (Opti (next_ref st))
   \<and> opti_provided (fst (install_opti M self None st)) = Inr False
   \<and> opti (fst (install_opti M self (Some v) st)) = Inr v
   \<and> opti_provided (fst (install_opti M self (Some v) st)) = Inr True
   \<and> (\<forall>self'. substitute_solution_analysis val self = Inr self' \<longrightarrow>
         opti_provided self' = opti_provided self
         \<and> (p_opti self \<noteq> None \<longrightarrow> (\<exists>w. opti self' = Inr w)))"
proof -
  have "opti_provided self' = opti_provided self \<and> (p_opti self \<noteq> None \<longrightarrow> (\<exists>w. opti self' = Inr w))"
    if "substitute_solution_analysis val self = Inr self'" for self'
    using substitute_solution_analysis_slots(1,2)[OF that]
    by (cases "p_opti self'") (auto simp: opti_def opti_provided_def)
  then show ?thesis
    by (simp add: opti_def opti_provided_def opti_setter_def opti_provided_setter_def
          install_opti_simps)
qed

text \<open>
  The theorem on an object without the two attributes, on the same object after the
  decorator has installed a new environment, and on an analysis after a substitution.
\<close>

theorem opti_properties_witness:
  "p_opti new_object = None \<and> opti new_object = Inl ImplicitAnalysisInitError
   \<and> p_opti_provided new_object = None
   \<and> opti_provided new_object = Inl ImplicitAnalysisInitError
   \<and> opti (fst (install_opti sample_Opti new_object None empty_store)) = Inr (Opti 0)
   \<and> opti_provided (fst (install_opti sample_Opti new_object None empty_store)) = Inr False
   \<and> substitute_solution_analysis (value_of (\<lambda>e. of_nat (length e)))
        \<lparr>p_opti = Some (Opti 0), p_opti_provided = Some False,
         attributes = [(''a'', Symbolic ''a'')]\<rparr>
      = Inr \<lparr>p_opti = Some (Opti 0), p_opti_provided = Some False,
             attributes = [(''a'', PyFloat 1)]\<rparr>
   \<and> opti_provided \<lparr>p_opti = Some (Opti 0), p_opti_provided = Some False,
                     attributes = [(''a'', PyFloat 1 :: string item)]\<rparr> = Inr False
   \<and> (\<exists>w. opti \<lparr>p_opti = Some (Opti 0), p_opti_provided = Some False,
                  attributes = [(''a'', PyFloat 1 :: string item)]\<rparr> = Inr w)"
proof -
  let ?self = "\<lparr>p_opti = Some (Opti 0), p_opti_provided = Some False,
         attributes = [(''a'', Symbolic ''a'')]\<rparr>"
  let ?self' = "\<lparr>p_opti = Some (Opti 0), p_opti_provided = Some False,
             attributes = [(''a'', PyFloat 1 :: string item)]\<rparr>"
  let ?v = "value_of (\<lambda>e :: string. of_nat (length e))"
  have n: "p_opti new_object = None" "p_opti_provided new_object = None"
    by (simp_all add: new_object_def)
  have s: "substitute_solution_analysis ?v ?self = Inr ?self'"
    by (simp add: substitute_solution_analysis_def try_value_def)
  have p: "p_opti ?self \<noteq> None" by simp
  have o: "opti_provided ?self = Inr False" by (simp add: opti_provided_def)
  note t = opti_properties[where self = new_object and M = sample_Opti and st = empty_store]
  note u = opti_properties[where self = ?self and val = ?v]
  from t n have 1: "opti new_object = Inl ImplicitAnalysisInitError"
    "opti_provided new_object = Inl ImplicitAnalysisInitError"
    by blast+
  from t have 2: "opti (fst (install_opti sample_Opti new_object None empty_store)) = Inr (Opti 0)"
    "opti_provided (fst (install_opti sample_Opti new_object None empty_store)) = Inr False"
    by (simp_all add: empty_store_def)
  from u s p o have 3: "opti_provided ?self' = Inr False" "\<exists>w. opti ?self' = Inr w"
    by (metis)+
  from n 1 2 s 3 show ?thesis by (intro conjI)
qed

lemma init_wrapped_unfold:
  "init_wrapped M init_method self opti_arg st =
     (case init_method (fst (install_opti M self opti_arg st)) (snd (install_opti M self opti_arg st)) of
        Inl e \<Rightarrow> Inl e
      | Inr (self2, st2) \<Rightarrow> solve_if_not_provided M self2 st2)"
  by (simp add: init_wrapped_def case_prod_beta)

lemma install_opti_provided:
  "install_opti M self (Some v) st = (opti_provided_setter True (opti_setter v self), st)"
  by (simp add: install_opti_def)

lemma install_opti_not_provided:
  "install_opti M self None st
     = (opti_provided_setter False (opti_setter (Opti (next_ref st)) self), snd (Opti_call M st))"
  by (simp add: install_opti_def Opti_call_def)

lemma init_wrapped_provided:
  assumes "init_method (opti_provided_setter True (opti_setter v self)) st = Inr (self2, st2)"
    and "p_opti_provided self2 = Some True"
  shows "init_wrapped M init_method self (Some v) st = Inr (self2, st2)"
  using assms
  by (simp add: init_wrapped_unfold install_opti_provided solve_if_not_provided_def
        opti_provided_def)

lemma init_wrapped_not_provided:
  assumes "init_method (opti_provided_setter False (opti_setter (Opti (next_ref st)) self))
             (snd (Opti_call M st)) = Inr (self2, st2)"
    and "p_opti_provided self2 = Some False"
    and "p_opti self2 = Some (Opti r)"
  shows "init_wrapped M init_method self None st =
     (if x_shape M (heap st2 r) = (0, 1) then Inr (self2, st2)
      else (case solve M (heap st2 r) of
              Inl e \<Rightarrow> Inl e
            | Inr sol \<Rightarrow>
                (case substitute_solution_analysis (sol_value M sol) self2 of
                   Inl e \<Rightarrow> Inl e
                 | Inr self3 \<Rightarrow> Inr (self3, st2))))"
  using assms
  by (simp add: init_wrapped_unfold install_opti_not_provided solve_if_not_provided_def
        opti_provided_def opti_x_shape_def opti_solve_def opti_def)



text \<open>
  Claim C1, as the code has it. Without an \<open>opti\<close> argument the decorator creates
  an environment and runs the initializer, which is taken to return without reassigning
  \<open>opti\<close> or \<open>opti_provided\<close>. When \<open>opti.x.shape\<close> is then
  \<open>(0, 1)\<close>, the constructor returns what the initializer left and invokes neither
  \<open>solve\<close> nor the substitution. When it is not, the constructor solves the
  environment and substitutes the solution before it returns, and raises what either
  raises; under a solution whose \<open>sol.value\<close> evaluates every symbolic expression,
  raises nothing but \<open>NotImplementedError\<close> and returns values without symbolic
  values, the object returned holds no symbolic value in an attribute itself or nested
  inside lists, tuples and sub-objects, and none at all when no dict and no other
  container of the initializer held one.
\<close>

theorem init_wrapped_standalone:
  assumes "init_method (opti_provided_setter False (opti_setter (Opti (next_ref st)) self))
             (snd (Opti_call M st)) = Inr (self2, st2)"
    and "p_opti_provided self2 = Some False"
    and "p_opti self2 = Some (Opti r)"
  shows "(x_shape M (heap st2 r) = (0, 1) \<longrightarrow>
            init_wrapped M init_method self None st = Inr (self2, st2))
     \<and> (x_shape M (heap st2 r) \<noteq> (0, 1) \<longrightarrow>
            init_wrapped M init_method self None st =
              (case solve M (heap st2 r) of
                 Inl e \<Rightarrow> Inl e
               | Inr sol \<Rightarrow>
                   (case substitute_solution_analysis (sol_value M sol) self2 of
                      Inl e \<Rightarrow> Inl e
                    | Inr self3 \<Rightarrow> Inr (self3, st2))))
     \<and> (\<forall>sol. x_shape M (heap st2 r) \<noteq> (0, 1) \<and> solve M (heap st2 r) = Inr sol
              \<and> evaluates (sol_value M sol) \<longrightarrow>
            (\<exists>self3. init_wrapped M init_method self None st = Inr (self3, st2)
               \<and> attributes self3 = solved_attributes (sol_value M sol) (attributes self2)
               \<and> replaced_attributes (attributes self3)
               \<and> (nested_in_lists_attributes (attributes self2) \<longrightarrow>
                    symbolic_free_attributes (attributes self3))
               \<and> opti_provided self3 = Inr False))"
proof -
  note w = init_wrapped_not_provided[where init_method = init_method, OF assms]
  have e: "\<exists>self3. init_wrapped M init_method self None st = Inr (self3, st2)
               \<and> attributes self3 = solved_attributes (sol_value M sol) (attributes self2)
               \<and> replaced_attributes (attributes self3)
               \<and> (nested_in_lists_attributes (attributes self2) \<longrightarrow>
                    symbolic_free_attributes (attributes self3))
               \<and> opti_provided self3 = Inr False"
    if "x_shape M (heap st2 r) \<noteq> (0, 1) \<and> solve M (heap st2 r) = Inr sol
              \<and> evaluates (sol_value M sol)" for sol
  proof -
    from that have ev: "evaluates (sol_value M sol)" by simp
    from that assms(2) show ?thesis
      by (simp add: w substitute_solution_analysis_evaluates[OF ev]
            solved_replaced(3)[OF ev] solved_symbolic_free(3)[OF ev] opti_provided_def)
  qed
  from w e show ?thesis by simp
qed

text \<open>
  The theorem on the initializer of the docstring, whose attributes are solved to 1, and
  on the initializer that declares a variable and adds no constraint, which is returned
  as it is.
\<close>

theorem init_wrapped_standalone_witness:
  "MyAnalysis_init
       (opti_provided_setter False (opti_setter (Opti (next_ref empty_store)) new_object))
       (snd (Opti_call sample_Opti empty_store))
     = Inr (\<lparr>p_opti = Some (Opti 0), p_opti_provided = Some False,
             attributes = [(''a'', Symbolic ''a''), (''b'', Symbolic ''b'')]\<rparr>,
            \<lparr>heap = (\<lambda>r. \<lparr>variables = [], constraints = []\<rparr>)
                      (0 := \<lparr>variables = [''a'', ''b''], constraints = [[''a'', ''b'']]\<rparr>),
             next_ref = Suc 0\<rparr>)
   \<and> x_shape sample_Opti \<lparr>variables = [''a'', ''b''], constraints = [[''a'', ''b'']]\<rparr>
       = (2, 1)
   \<and> solve sample_Opti \<lparr>variables = [''a'', ''b''], constraints = [[''a'', ''b'']]\<rparr>
       = Inr (\<lambda>e. of_nat (length e))
   \<and> evaluates (sol_value sample_Opti (\<lambda>e. of_nat (length e)))
   \<and> (\<exists>self3. init_wrapped sample_Opti MyAnalysis_init new_object None empty_store
                 = Inr (self3,
                        \<lparr>heap = (\<lambda>r. \<lparr>variables = [], constraints = []\<rparr>)
                           (0 := \<lparr>variables = [''a'', ''b''],
                                  constraints = [[''a'', ''b'']]\<rparr>),
                         next_ref = Suc 0\<rparr>)
          \<and> attributes self3 = [(''a'', PyFloat 1), (''b'', PyFloat 1)]
          \<and> replaced_attributes (attributes self3)
          \<and> symbolic_free_attributes (attributes self3)
          \<and> opti_provided self3 = Inr False)
   \<and> unused_variable_init
       (opti_provided_setter False (opti_setter (Opti (next_ref empty_store)) new_object))
       (snd (Opti_call sample_Opti empty_store))
     = Inr (\<lparr>p_opti = Some (Opti 0), p_opti_provided = Some False,
             attributes = [(''a'', Symbolic ''a'')]\<rparr>,
            \<lparr>heap = (\<lambda>r. \<lparr>variables = [], constraints = []\<rparr>)
                      (0 := \<lparr>variables = [''a''], constraints = []\<rparr>),
             next_ref = Suc 0\<rparr>)
   \<and> x_shape sample_Opti \<lparr>variables = [''a''], constraints = []\<rparr> = (0, 1)
   \<and> init_wrapped sample_Opti unused_variable_init new_object None empty_store
     = Inr (\<lparr>p_opti = Some (Opti 0), p_opti_provided = Some False,
             attributes = [(''a'', Symbolic ''a'')]\<rparr>,
            \<lparr>heap = (\<lambda>r. \<lparr>variables = [], constraints = []\<rparr>)
                      (0 := \<lparr>variables = [''a''], constraints = []\<rparr>),
             next_ref = Suc 0\<rparr>)"
proof -
  let ?env2 = "\<lparr>variables = [''a'', ''b''], constraints = [[''a'', ''b'']]\<rparr>"
  let ?envu = "\<lparr>variables = [''a''], constraints = []\<rparr>"
  let ?self2 = "\<lparr>p_opti = Some (Opti 0), p_opti_provided = Some False,
             attributes = [(''a'', Symbolic ''a''), (''b'', Symbolic ''b'')]\<rparr>"
  let ?st2 = "\<lparr>heap = (\<lambda>r. \<lparr>variables = [], constraints = []\<rparr>)(0 := ?env2),
             next_ref = Suc 0\<rparr>"
  let ?selfu = "\<lparr>p_opti = Some (Opti 0), p_opti_provided = Some False,
             attributes = [(''a'', Symbolic ''a'')]\<rparr>"
  let ?stu = "\<lparr>heap = (\<lambda>r. \<lparr>variables = [], constraints = []\<rparr>)(0 := ?envu),
             next_ref = Suc 0\<rparr>"
  let ?sol = "\<lambda>e :: string. (of_nat (length e) :: pyfloat)"
  have h1: "MyAnalysis_init
       (opti_provided_setter False (opti_setter (Opti (next_ref empty_store)) new_object))
       (snd (Opti_call sample_Opti empty_store)) = Inr (?self2, ?st2)"
    by (simp add: sample_defs)
  have h2: "p_opti_provided ?self2 = Some False" and h3: "p_opti ?self2 = Some (Opti 0)"
    by simp_all
  have x: "x_shape sample_Opti ?env2 = (2, 1)" by (simp add: sample_Opti_def sample_x_def)
  have sv: "solve sample_Opti ?env2 = Inr ?sol" by (simp add: sample_Opti_def sample_x_def)
  have ev: "evaluates (sol_value sample_Opti ?sol)"
    by (simp add: sample_Opti_def array_value_of_evaluates)
  have ne: "nested_in_lists_attributes (attributes ?self2)" by simp
  have hp: "heap ?st2 0 = ?env2" by simp
  note t = init_wrapped_standalone[where init_method = MyAnalysis_init and M = sample_Opti,
      OF h1 h2 h3, unfolded hp]
  from x have x': "x_shape sample_Opti ?env2 \<noteq> (0, 1)" by simp
  from t x' sv ev have "\<exists>self3. init_wrapped sample_Opti MyAnalysis_init new_object None empty_store
                 = Inr (self3, ?st2)
          \<and> attributes self3 = solved_attributes (sol_value sample_Opti ?sol) (attributes ?self2)
          \<and> replaced_attributes (attributes self3)
          \<and> (nested_in_lists_attributes (attributes ?self2) \<longrightarrow>
               symbolic_free_attributes (attributes self3))
          \<and> opti_provided self3 = Inr False"
    by blast
  with ne have 1: "\<exists>self3. init_wrapped sample_Opti MyAnalysis_init new_object None empty_store
                 = Inr (self3, ?st2)
          \<and> attributes self3 = [(''a'', PyFloat 1), (''b'', PyFloat 1)]
          \<and> replaced_attributes (attributes self3)
          \<and> symbolic_free_attributes (attributes self3)
          \<and> opti_provided self3 = Inr False"
    by (simp add: sample_Opti_def)
  have p1: "unused_variable_init
       (opti_provided_setter False (opti_setter (Opti (next_ref empty_store)) new_object))
       (snd (Opti_call sample_Opti empty_store)) = Inr (?selfu, ?stu)"
    by (simp add: sample_defs)
  have p2: "p_opti_provided ?selfu = Some False" and p3: "p_opti ?selfu = Some (Opti 0)"
    by simp_all
  have px: "x_shape sample_Opti ?envu = (0, 1)" by (simp add: sample_Opti_def sample_x_def)
  have hu: "heap ?stu 0 = ?envu" by simp
  note u = init_wrapped_standalone[where init_method = unused_variable_init and M = sample_Opti,
      OF p1 p2 p3, unfolded hu]
  from u px have 2: "init_wrapped sample_Opti unused_variable_init new_object None empty_store
     = Inr (?selfu, ?stu)"
    by blast
  from h1 x sv ev 1 p1 px 2 show ?thesis by (intro conjI)
qed

text \<open>
  The claim as stated fails twice. An analysis that declares a variable and uses it in no
  constraint leaves \<open>x.shape == (0, 1)\<close>: whatever \<open>solve\<close> does, also if it
  raises, the constructor returns without solving, and the symbol is still an attribute
  of the object. And an analysis that is solved and substituted in the constructor still
  holds the symbolic value that it keeps in a dict.
\<close>

theorem init_wrapped_leaves_symbolic_state:
  "(\<forall>sv. map_sum id (attributes \<circ> fst)
           (init_wrapped (sample_Opti\<lparr>solve := sv\<rparr>) unused_variable_init new_object None
              empty_store)
         = Inr [(''a'', Symbolic ''a'')])
   \<and> \<not> symbolic_free_attributes [(''a'', Symbolic ''a'')]
   \<and> map_sum id (attributes \<circ> fst)
         (init_wrapped sample_Opti dict_init new_object None empty_store)
       = Inr [(''a'', PyFloat 1), (''b'', PyFloat 1), (''d'', PyDict [(''a'', Symbolic ''a'')])]
   \<and> \<not> symbolic_free_attributes
         [(''a'', PyFloat 1), (''b'', PyFloat 1), (''d'', PyDict [(''a'', Symbolic ''a'')])]"
  by (simp add: run_defs sample_defs)

text \<open>
  Claim C2, as the code has it. The caller creates an environment, constructs the
  analysis with it, solves it and substitutes the solution; the standalone construction
  creates the environment itself. When the initializer returns the same object and
  store in both modes, up to \<open>opti_provided\<close>, which it does not reassign any more
  than \<open>opti\<close>, and leaves an \<open>opti.x.shape\<close> that is not \<open>(0, 1)\<close>,
  both ways give the same result: the same error, or the same object and store up to the
  value of \<open>opti_provided\<close>, and so the same attributes.
\<close>

theorem external_solve_round_trip:
  assumes "init_method (opti_provided_setter True (opti_setter (Opti (next_ref st)) self))
             (snd (Opti_call M st)) = Inr (self2, st2)"
    and "init_method (opti_provided_setter False (opti_setter (Opti (next_ref st)) self))
             (snd (Opti_call M st)) = Inr (self2\<lparr>p_opti_provided := Some False\<rparr>, st2)"
    and "p_opti_provided self2 = Some True"
    and "p_opti self2 = Some (Opti (next_ref st))"
    and "x_shape M (heap st2 (next_ref st)) \<noteq> (0, 1)"
  shows "init_wrapped M init_method self None st =
           (case solved_externally M init_method self st of
              Inl e \<Rightarrow> Inl e
            | Inr (self3, st3) \<Rightarrow> Inr (self3\<lparr>p_opti_provided := Some False\<rparr>, st3))
     \<and> map_sum id (attributes \<circ> fst) (init_wrapped M init_method self None st)
         = map_sum id (attributes \<circ> fst) (solved_externally M init_method self st)"
proof -
  have ext: "solved_externally M init_method self st =
     (case solve M (heap st2 (next_ref st)) of
        Inl e \<Rightarrow> Inl e
      | Inr sol \<Rightarrow>
          (case substitute_solution_analysis (sol_value M sol) self2 of
             Inl e \<Rightarrow> Inl e
           | Inr self3 \<Rightarrow> Inr (self3, st2)))"
    by (simp add: solved_externally_def solved_externally_in_def Opti_call_def
          init_wrapped_provided[where init_method = init_method, OF assms(1,3), unfolded Opti_call_def, simplified])
  have alone: "init_wrapped M init_method self None st =
     (case solve M (heap st2 (next_ref st)) of
        Inl e \<Rightarrow> Inl e
      | Inr sol \<Rightarrow>
          (case substitute_solution_analysis (sol_value M sol) self2 of
             Inl e \<Rightarrow> Inl e
           | Inr self3 \<Rightarrow> Inr (self3\<lparr>p_opti_provided := Some False\<rparr>, st2)))"
    using assms(4,5)
    by (simp add: init_wrapped_not_provided[where init_method = init_method and r = "next_ref st", OF assms(2)]
          substitute_solution_analysis_flag split: sum.splits)
  show ?thesis
    unfolding ext alone by (simp split: sum.splits)
qed

text \<open>
  The theorem on the initializer of the docstring: both ways, the attributes are 1.
\<close>

theorem external_solve_round_trip_witness:
  "MyAnalysis_init
       (opti_provided_setter True (opti_setter (Opti (next_ref empty_store)) new_object))
       (snd (Opti_call sample_Opti empty_store))
     = Inr (\<lparr>p_opti = Some (Opti 0), p_opti_provided = Some True,
             attributes = [(''a'', Symbolic ''a''), (''b'', Symbolic ''b'')]\<rparr>,
            \<lparr>heap = (\<lambda>r. \<lparr>variables = [], constraints = []\<rparr>)
                      (0 := \<lparr>variables = [''a'', ''b''], constraints = [[''a'', ''b'']]\<rparr>),
             next_ref = Suc 0\<rparr>)
   \<and> MyAnalysis_init
       (opti_provided_setter False (opti_setter (Opti (next_ref empty_store)) new_object))
       (snd (Opti_call sample_Opti empty_store))
     = Inr (\<lparr>p_opti = Some (Opti 0), p_opti_provided = Some True,
             attributes = [(''a'', Symbolic ''a''), (''b'', Symbolic ''b'')]\<rparr>
              \<lparr>p_opti_provided := Some False\<rparr>,
            \<lparr>heap = (\<lambda>r. \<lparr>variables = [], constraints = []\<rparr>)
                      (0 := \<lparr>variables = [''a'', ''b''], constraints = [[''a'', ''b'']]\<rparr>),
             next_ref = Suc 0\<rparr>)
   \<and> x_shape sample_Opti \<lparr>variables = [''a'', ''b''], constraints = [[''a'', ''b'']]\<rparr>
       = (2, 1)
   \<and> init_wrapped sample_Opti MyAnalysis_init new_object None empty_store
     = (case solved_externally sample_Opti MyAnalysis_init new_object empty_store of
          Inl e \<Rightarrow> Inl e
        | Inr (self3, st3) \<Rightarrow> Inr (self3\<lparr>p_opti_provided := Some False\<rparr>, st3))
   \<and> map_sum id (attributes \<circ> fst)
         (init_wrapped sample_Opti MyAnalysis_init new_object None empty_store)
     = map_sum id (attributes \<circ> fst)
         (solved_externally sample_Opti MyAnalysis_init new_object empty_store)
   \<and> map_sum id (attributes \<circ> fst)
         (solved_externally sample_Opti MyAnalysis_init new_object empty_store)
     = Inr [(''a'', PyFloat 1), (''b'', PyFloat 1)]"
proof -
  let ?env2 = "\<lparr>variables = [''a'', ''b''], constraints = [[''a'', ''b'']]\<rparr>"
  let ?self2 = "\<lparr>p_opti = Some (Opti 0), p_opti_provided = Some True,
             attributes = [(''a'', Symbolic ''a''), (''b'', Symbolic ''b'')]\<rparr>"
  let ?st2 = "\<lparr>heap = (\<lambda>r. \<lparr>variables = [], constraints = []\<rparr>)(0 := ?env2),
             next_ref = Suc 0\<rparr>"
  have h1: "MyAnalysis_init
       (opti_provided_setter True (opti_setter (Opti (next_ref empty_store)) new_object))
       (snd (Opti_call sample_Opti empty_store)) = Inr (?self2, ?st2)"
    by (simp add: sample_defs)
  have h2: "MyAnalysis_init
       (opti_provided_setter False (opti_setter (Opti (next_ref empty_store)) new_object))
       (snd (Opti_call sample_Opti empty_store))
     = Inr (?self2\<lparr>p_opti_provided := Some False\<rparr>, ?st2)"
    by (simp add: sample_defs)
  have h3: "p_opti_provided ?self2 = Some True" by simp
  have h4: "p_opti ?self2 = Some (Opti (next_ref empty_store))"
    by (simp add: empty_store_def)
  have x: "x_shape sample_Opti ?env2 = (2, 1)" by (simp add: sample_Opti_def sample_x_def)
  have h5: "x_shape sample_Opti (heap ?st2 (next_ref empty_store)) \<noteq> (0, 1)"
    by (simp add: sample_Opti_def sample_x_def empty_store_def)
  note t = external_solve_round_trip[where init_method = MyAnalysis_init and M = sample_Opti,
      OF h1 h2 h3 h4 h5]
  note t1 = t[THEN conjunct1] and t2 = t[THEN conjunct2]
  have e: "map_sum id (attributes \<circ> fst)
         (solved_externally sample_Opti MyAnalysis_init new_object empty_store)
     = Inr [(''a'', PyFloat 1), (''b'', PyFloat 1)]"
    by (simp add: run_defs sample_defs)
  from h1 h2 x t1 t2 e show ?thesis by (intro conjI)
qed

text \<open>
  The claim as stated fails three times. On an analysis that declares a variable and
  uses it in no constraint, \<open>x.shape\<close> is \<open>(0, 1)\<close>: the standalone
  construction does not substitute and keeps the symbol, the round trip through the
  caller replaces it or raises what \<open>solve\<close> raises. On the same analysis, given an
  environment that the caller holds already and that has a variable in use,
  \<open>x.shape\<close> is \<open>(1, 1)\<close> and the round trip replaces the symbol, while the
  standalone construction, in an environment of its own, keeps it. And on an analysis
  that stores what \<open>opti_provided\<close> tells it, both ways solve and the attribute
  differs.
\<close>

theorem external_solve_differs:
  "(\<forall>sv. map_sum id (attributes \<circ> fst)
          (solved_externally (sample_Opti\<lparr>solve := sv\<rparr>) unused_variable_init new_object
             empty_store)
       \<noteq> map_sum id (attributes \<circ> fst)
          (init_wrapped (sample_Opti\<lparr>solve := sv\<rparr>) unused_variable_init new_object None
             empty_store))
   \<and> map_sum id (\<lambda>(self2, st2). x_shape sample_Opti (heap st2 0))
         (init_wrapped sample_Opti unused_variable_init new_object (Some (Opti 0)) store_in_use)
       = Inr (1, 1)
   \<and> map_sum id (attributes \<circ> fst)
         (solved_externally_in sample_Opti unused_variable_init new_object 0 store_in_use)
       = Inr [(''a'', PyFloat 1)]
   \<and> map_sum id (attributes \<circ> fst)
         (init_wrapped sample_Opti unused_variable_init new_object None store_in_use)
       = Inr [(''a'', Symbolic ''a'')]
   \<and> map_sum id (attributes \<circ> fst)
         (solved_externally sample_Opti standalone_init new_object empty_store)
       = Inr [(''a'', PyFloat 1), (''b'', PyFloat 1), (''standalone'', PyBool False)]
   \<and> map_sum id (attributes \<circ> fst)
         (init_wrapped sample_Opti standalone_init new_object None empty_store)
       = Inr [(''a'', PyFloat 1), (''b'', PyFloat 1), (''standalone'', PyBool True)]"
proof -
  have 1: "map_sum id (attributes \<circ> fst)
          (solved_externally (sample_Opti\<lparr>solve := sv\<rparr>) unused_variable_init new_object
             empty_store)
       \<noteq> map_sum id (attributes \<circ> fst)
          (init_wrapped (sample_Opti\<lparr>solve := sv\<rparr>) unused_variable_init new_object None
             empty_store)" for sv
  proof -
    have alone: "map_sum id (attributes \<circ> fst)
          (init_wrapped (sample_Opti\<lparr>solve := sv\<rparr>) unused_variable_init new_object None
             empty_store) = Inr [(''a'', Symbolic ''a'')]"
      by (simp add: run_defs sample_defs)
    have ext: "map_sum id (attributes \<circ> fst)
          (solved_externally (sample_Opti\<lparr>solve := sv\<rparr>) unused_variable_init new_object
             empty_store)
        = (case sv \<lparr>variables = [''a''], constraints = []\<rparr> of
             Inl e \<Rightarrow> Inl e | Inr sol \<Rightarrow> Inr [(''a'', PyFloat (sol ''a''))])"
      by (simp add: run_defs sample_defs split: sum.splits)
    show ?thesis unfolding alone ext by (simp split: sum.splits)
  qed
  have 2: "map_sum id (\<lambda>(self2, st2). x_shape sample_Opti (heap st2 0))
         (init_wrapped sample_Opti unused_variable_init new_object (Some (Opti 0)) store_in_use)
       = Inr (1, 1)"
    by (simp add: run_defs sample_defs)
  have 3: "map_sum id (attributes \<circ> fst)
         (solved_externally_in sample_Opti unused_variable_init new_object 0 store_in_use)
       = Inr [(''a'', PyFloat 1)]"
    by (simp add: run_defs sample_defs)
  have 4: "map_sum id (attributes \<circ> fst)
         (init_wrapped sample_Opti unused_variable_init new_object None store_in_use)
       = Inr [(''a'', Symbolic ''a'')]"
    by (simp add: run_defs sample_defs)
  have 5: "map_sum id (attributes \<circ> fst)
         (solved_externally sample_Opti standalone_init new_object empty_store)
       = Inr [(''a'', PyFloat 1), (''b'', PyFloat 1), (''standalone'', PyBool False)]"
    by (simp add: run_defs sample_defs)
  have 6: "map_sum id (attributes \<circ> fst)
         (init_wrapped sample_Opti standalone_init new_object None empty_store)
       = Inr [(''a'', PyFloat 1), (''b'', PyFloat 1), (''standalone'', PyBool True)]"
    by (simp add: run_defs sample_defs)
  from 1 2 3 4 5 6 show ?thesis by (intro conjI allI)
qed

end
